theory Spec2Isabelle
  imports Complex_Main
begin

text \<open>
  A shallow embedding of \<open>graph/GraphInstance.ts\<close>: the class \<open>Graph\<close> with its
  constructor, \<open>add\<close> and \<open>draw\<close>. The drawing surface is the list of the calls made
  on its 2D context. The built-ins \<open>toString\<close>, \<open>toFixed\<close> and \<open>parseFloat\<close> are
  modelled after the language standard: \<open>toString\<close> of an integer and \<open>parseFloat\<close>
  work with the double nearest to their argument.
\<close>

section \<open>Numbers of the source language\<close>

text \<open>
  A number of the program is a finite value, one of the two infinities, or NaN.
  Finite values are reals and the arithmetic operators are exact: the rounding of a
  sum, product or quotient to a double, its overflow to infinity and the sign of zero
  are not part of this model. Division by zero, the remainder of an infinity and
  a failed parse give what the language gives. Where the program's result depends on
  the rounding of an operator, as the value of a y tick does (a quotient the program
  rounds just below a whole number passes for that whole number here), the model is
  not the program: the theorems below that state texts are about the bars and the
  x ticks, and the formatting rule takes the value of a y tick as given.
\<close>

datatype jsnum = Fin real | PInf | NInf | NaN

fun jneg :: "jsnum \<Rightarrow> jsnum" where
  "jneg (Fin a) = Fin (- a)"
| "jneg PInf = NInf"
| "jneg NInf = PInf"
| "jneg NaN = NaN"

fun jadd :: "jsnum \<Rightarrow> jsnum \<Rightarrow> jsnum" where
  "jadd (Fin a) (Fin b) = Fin (a + b)"
| "jadd NaN _ = NaN"
| "jadd _ NaN = NaN"
| "jadd PInf NInf = NaN"
| "jadd NInf PInf = NaN"
| "jadd PInf _ = PInf"
| "jadd NInf _ = NInf"
| "jadd _ PInf = PInf"
| "jadd _ NInf = NInf"

definition jsub :: "jsnum \<Rightarrow> jsnum \<Rightarrow> jsnum" where
  "jsub a b = jadd a (jneg b)"

text \<open>The infinity whose sign is the sign of a non-zero real.\<close>

definition inf_of_sign :: "real \<Rightarrow> jsnum" where
  "inf_of_sign a = (if a = 0 then NaN else if 0 < a then PInf else NInf)"

fun jmul :: "jsnum \<Rightarrow> jsnum \<Rightarrow> jsnum" where
  "jmul (Fin a) (Fin b) = Fin (a * b)"
| "jmul NaN _ = NaN"
| "jmul _ NaN = NaN"
| "jmul (Fin a) PInf = inf_of_sign a"
| "jmul (Fin a) NInf = inf_of_sign (- a)"
| "jmul PInf (Fin b) = inf_of_sign b"
| "jmul NInf (Fin b) = inf_of_sign (- b)"
| "jmul PInf PInf = PInf"
| "jmul PInf NInf = NInf"
| "jmul NInf PInf = NInf"
| "jmul NInf NInf = PInf"

fun jdiv :: "jsnum \<Rightarrow> jsnum \<Rightarrow> jsnum" where
  "jdiv (Fin a) (Fin b) = (if b = 0 then inf_of_sign a else Fin (a / b))"
| "jdiv NaN _ = NaN"
| "jdiv _ NaN = NaN"
| "jdiv (Fin a) PInf = Fin 0"
| "jdiv (Fin a) NInf = Fin 0"
| "jdiv PInf (Fin b) = (if 0 \<le> b then PInf else NInf)"
| "jdiv NInf (Fin b) = (if 0 \<le> b then NInf else PInf)"
| "jdiv PInf _ = NaN"
| "jdiv NInf _ = NaN"

text \<open>Rounding towards zero, as the remainder operator of the language does.\<close>

definition trunc :: "real \<Rightarrow> int" where
  "trunc a = (if 0 \<le> a then \<lfloor>a\<rfloor> else \<lceil>a\<rceil>)"

fun jmod :: "jsnum \<Rightarrow> jsnum \<Rightarrow> jsnum" where
  "jmod (Fin a) (Fin b) = (if b = 0 then NaN else Fin (a - b * of_int (trunc (a / b))))"
| "jmod (Fin a) PInf = Fin a"
| "jmod (Fin a) NInf = Fin a"
| "jmod _ _ = NaN"

text \<open>The comparison \<open>a < b\<close>: false as soon as an operand is NaN.\<close>

fun jlt :: "jsnum \<Rightarrow> jsnum \<Rightarrow> bool" where
  "jlt (Fin a) (Fin b) = (a < b)"
| "jlt NaN _ = False"
| "jlt _ NaN = False"
| "jlt _ NInf = False"
| "jlt PInf _ = False"
| "jlt NInf _ = True"
| "jlt _ PInf = True"

fun isNaN :: "jsnum \<Rightarrow> bool" where
  "isNaN NaN = True"
| "isNaN _ = False"

text \<open>A number is truthy unless it is zero or NaN.\<close>

fun truthy :: "jsnum \<Rightarrow> bool" where
  "truthy (Fin a) = (a \<noteq> 0)"
| "truthy NaN = False"
| "truthy _ = True"

section \<open>Doubles\<close>

text \<open>The number of binary digits of a natural number.\<close>

fun bits :: "nat \<Rightarrow> nat" where
  "bits n = (if n = 0 then 0 else Suc (bits (n div 2)))"

declare bits.simps [simp del]

text \<open>The quotient of two naturals as the nearest integer, a tie going to the even one.\<close>

definition round_half_even :: "nat \<Rightarrow> nat \<Rightarrow> nat" where
  "round_half_even num den =
     (let m = num div den; r = num mod den
      in if den < 2 * r \<or> (2 * r = den \<and> odd m) then m + 1 else m)"

text \<open>
  The double nearest to a natural number (round to nearest, ties to even): 53
  binary digits are kept.
\<close>

definition round_int :: "nat \<Rightarrow> nat" where
  "round_int n =
     (if bits n \<le> 53 then n
      else round_half_even n (2 ^ (bits n - 53)) * 2 ^ (bits n - 53))"

text \<open>
  The double nearest to the quotient \<open>p / q\<close> of two naturals, \<open>q\<close> not 0: \<open>e\<close> is
  the binary exponent of the quotient and \<open>2 ^ t\<close> the spacing of the doubles around
  it, which is \<open>2 ^ - 1074\<close> for the subnormal ones. A quotient that rounds to
  \<open>2 ^ 1024\<close> or more is \<open>Infinity\<close>.
\<close>

definition round_ratio :: "nat \<Rightarrow> nat \<Rightarrow> jsnum" where
  "round_ratio p q =
     (if p = 0 then Fin 0
      else
        (let d = int (bits p) - int (bits q);
             e = (if (if 0 \<le> d then q * 2 ^ nat d \<le> p else q \<le> p * 2 ^ nat (- d)) then d else d - 1);
             t = max (e - 52) (- 1074);
             m = (if 0 \<le> t then round_half_even p (q * 2 ^ nat t)
                  else round_half_even (p * 2 ^ nat (- t)) q)
         in if 0 \<le> t then
              (if 2 ^ 1024 \<le> m * 2 ^ nat t then PInf else Fin (real (m * 2 ^ nat t)))
            else Fin (real m / 2 ^ nat (- t))))"

section \<open>Numbers as text\<close>

definition digit_char :: "nat \<Rightarrow> char" where
  "digit_char d = ''0123456789'' ! d"

fun dec :: "nat \<Rightarrow> string" where
  "dec n = (if n < 10 then [digit_char n] else dec (n div 10) @ [digit_char (n mod 10)])"

declare dec.simps [simp del]

text \<open>
  \<open>Number.prototype.toString\<close> on an integer prints the fewest digits that still
  identify its double. \<open>pick m k\<close> looks for a number of \<open>k\<close> significant digits that
  rounds to the double of \<open>m\<close>, among the two neighbours of \<open>m\<close> with that many digits;
  when both do, the one closer to the double is taken.
\<close>

definition pick :: "nat \<Rightarrow> nat \<Rightarrow> nat option" where
  "pick m k =
     (let x = round_int m;
          p = 10 ^ (length (dec m) - k);
          lo = (m div p) * p;
          hi = lo + p;
          a = (round_int lo = x);
          b = (round_int hi = x)
      in if a \<and> b then
           Some (if \<bar>int x - int lo\<bar> < \<bar>int hi - int x\<bar> then lo
                 else if \<bar>int hi - int x\<bar> < \<bar>int x - int lo\<bar> then hi
                 else if even (m div p) then lo else hi)
         else if a then Some lo
         else if b then Some hi
         else None)"

fun shortest_from :: "nat \<Rightarrow> nat \<Rightarrow> nat \<Rightarrow> nat" where
  "shortest_from m k 0 = m"
| "shortest_from m k (Suc fuel) =
     (case pick m k of Some v \<Rightarrow> v | None \<Rightarrow> shortest_from m (Suc k) fuel)"

definition shortest :: "nat \<Rightarrow> nat" where
  "shortest m = shortest_from m 1 (length (dec m))"

definition strip_zeros :: "string \<Rightarrow> string" where
  "strip_zeros s = rev (dropWhile (\<lambda>c. c = CHR ''0'') (rev s))"

definition sci :: "nat \<Rightarrow> string" where
  "sci n = (let ds = dec n; m = strip_zeros ds in
     (if length m \<le> 1 then m else hd m # CHR ''.'' # tl m) @ ''e+'' @ dec (length ds - 1))"

text \<open>
  The text of an integer: the digits of the shortest number that identifies its double,
  in plain form below \<open>10^21\<close> and in scientific form from there on.
\<close>

definition intToString :: "int \<Rightarrow> string" where
  "intToString n = (if n < 0 then ''-'' else []) @
     (let v = shortest (round_int (nat \<bar>n\<bar>)) in if v < 10 ^ 21 then dec v else sci v)"

text \<open>
  \<open>toString\<close> of a number. Every call of the program is behind a test \<open>% 1\<close>, so a
  finite argument is an integer; the digits are those of its integer part. (A double
  from \<open>10^21\<close> on is an integer too, which is where \<open>toFixed\<close> falls back on
  \<open>toString\<close>.)
\<close>

fun numToString :: "jsnum \<Rightarrow> string" where
  "numToString (Fin a) = intToString (trunc a)"
| "numToString PInf = ''Infinity''"
| "numToString NInf = ''-Infinity''"
| "numToString NaN = ''NaN''"

datatype error = RangeError

text \<open>
  \<open>Number.prototype.toFixed\<close>. The digit count is first made an integer
  (NaN counts as 0); outside 0..100 the call raises, before the number is looked at.
\<close>

fun toIntegerOrInfinity :: "jsnum \<Rightarrow> int option" where
  "toIntegerOrInfinity (Fin p) = Some (trunc p)"
| "toIntegerOrInfinity NaN = Some 0"
| "toIntegerOrInfinity _ = None"

definition fixed_digits :: "real \<Rightarrow> nat \<Rightarrow> string" where
  "fixed_digits a f =
     (let n = nat \<lfloor>a * 10 ^ f + 1 / 2\<rfloor>;
          m = dec n;
          m' = (if f \<noteq> 0 \<and> length m \<le> f then replicate (f + 1 - length m) CHR ''0'' @ m else m)
      in if f = 0 then m'
         else take (length m' - f) m' @ ''.'' @ drop (length m' - f) m')"

definition toFixed :: "jsnum \<Rightarrow> jsnum \<Rightarrow> error + string" where
  "toFixed x fractionDigits =
     (case toIntegerOrInfinity fractionDigits of
        None \<Rightarrow> Inl RangeError
      | Some f \<Rightarrow>
          if f < 0 \<or> 100 < f then Inl RangeError
          else (case x of
                  Fin a \<Rightarrow>
                    if 10 ^ 21 \<le> \<bar>a\<bar> then Inr (numToString x)
                    else Inr ((if a < 0 then ''-'' else '''') @ fixed_digits \<bar>a\<bar> (nat f))
                | _ \<Rightarrow> Inr (numToString x)))"

section \<open>Text as numbers\<close>

definition isDigit :: "char \<Rightarrow> bool" where
  "isDigit c = (c \<in> set ''0123456789'')"

definition isPrefix :: "string \<Rightarrow> string \<Rightarrow> bool" where
  "isPrefix p s = (take (length p) s = p)"

text \<open>
  A text is the list of the bytes of its UTF-8 encoding. \<open>white_space\<close> lists the
  encodings of the characters that \<open>parseFloat\<close> skips at the start of its argument
  (\<open>StrWhiteSpaceChar\<close>: tab, line feed, vertical tab, form feed, carriage return, space,
  U+00A0, U+1680, U+2000 to U+200A, U+2028, U+2029, U+202F, U+205F, U+3000, U+FEFF).
\<close>

definition white_space :: "string list" where
  "white_space =
     [[CHR 0x09], [CHR 0x0A], [CHR 0x0B], [CHR 0x0C], [CHR 0x0D], [CHR 0x20],
      [CHR 0xC2, CHR 0xA0], [CHR 0xE1, CHR 0x9A, CHR 0x80],
      [CHR 0xE2, CHR 0x80, CHR 0x80], [CHR 0xE2, CHR 0x80, CHR 0x81],
      [CHR 0xE2, CHR 0x80, CHR 0x82], [CHR 0xE2, CHR 0x80, CHR 0x83],
      [CHR 0xE2, CHR 0x80, CHR 0x84], [CHR 0xE2, CHR 0x80, CHR 0x85],
      [CHR 0xE2, CHR 0x80, CHR 0x86], [CHR 0xE2, CHR 0x80, CHR 0x87],
      [CHR 0xE2, CHR 0x80, CHR 0x88], [CHR 0xE2, CHR 0x80, CHR 0x89],
      [CHR 0xE2, CHR 0x80, CHR 0x8A], [CHR 0xE2, CHR 0x80, CHR 0xA8],
      [CHR 0xE2, CHR 0x80, CHR 0xA9], [CHR 0xE2, CHR 0x80, CHR 0xAF],
      [CHR 0xE2, CHR 0x81, CHR 0x9F], [CHR 0xE3, CHR 0x80, CHR 0x80],
      [CHR 0xEF, CHR 0xBB, CHR 0xBF]]"

text \<open>Leading white space removed; the fuel is the length of the text, which is enough.\<close>

fun trim_start :: "nat \<Rightarrow> string \<Rightarrow> string" where
  "trim_start 0 s = s"
| "trim_start (Suc fuel) s =
     (case find (\<lambda>w. isPrefix w s) white_space of
        None \<Rightarrow> s
      | Some w \<Rightarrow> trim_start fuel (drop (length w) s))"

definition digitVal :: "char \<Rightarrow> nat" where
  "digitVal c = of_char c - 48"

definition digitsVal :: "string \<Rightarrow> nat" where
  "digitsVal s = foldl (\<lambda>a c. 10 * a + digitVal c) 0 s"

definition exponentPart :: "string \<Rightarrow> int" where
  "exponentPart s =
     (case s of
        [] \<Rightarrow> 0
      | c # r \<Rightarrow>
          if c = CHR ''e'' \<or> c = CHR ''E'' then
            (case r of
               [] \<Rightarrow> 0
             | d # r' \<Rightarrow>
                 if d = CHR ''-'' then
                   (if takeWhile isDigit r' = [] then 0 else - int (digitsVal (takeWhile isDigit r')))
                 else if d = CHR ''+'' then int (digitsVal (takeWhile isDigit r'))
                 else int (digitsVal (takeWhile isDigit r)))
          else 0)"

text \<open>The double nearest to \<open>m * 10 ^ e\<close>, the value of a decimal literal.\<close>

definition decimal :: "nat \<Rightarrow> int \<Rightarrow> jsnum" where
  "decimal m e = (if 0 \<le> e then round_ratio (m * 10 ^ nat e) 1 else round_ratio m (10 ^ nat (- e)))"

definition parseUnsigned :: "string \<Rightarrow> jsnum" where
  "parseUnsigned s =
     (if isPrefix ''Infinity'' s then PInf
      else
        (let ip = takeWhile isDigit s; r1 = dropWhile isDigit s in
         (case r1 of
            [] \<Rightarrow> if ip = [] then NaN else decimal (digitsVal ip) 0
          | c # r2 \<Rightarrow>
              if c = CHR ''.'' then
                (let fp = takeWhile isDigit r2; r3 = dropWhile isDigit r2 in
                 if ip = [] \<and> fp = [] then NaN
                 else decimal (digitsVal (ip @ fp)) (exponentPart r3 - int (length fp)))
              else if ip = [] then NaN
              else decimal (digitsVal ip) (exponentPart r1))))"

definition parseFloat :: "string \<Rightarrow> jsnum" where
  "parseFloat s =
     (case trim_start (length s) s of
        [] \<Rightarrow> NaN
      | c # r \<Rightarrow>
          if c = CHR ''-'' then jneg (parseUnsigned r)
          else if c = CHR ''+'' then parseUnsigned r
          else parseUnsigned (c # r))"

section \<open>Data of the chart\<close>

record RGBA =
  rgba_r :: jsnum
  rgba_g :: jsnum
  rgba_b :: jsnum
  rgba_a :: jsnum

record GraphOptions =
  width :: jsnum
  height :: jsnum
  backgroundColor :: RGBA
  titleText :: string
  xAxisText :: string
  yAxisText :: string
  yMax :: jsnum
  yPadding :: jsnum
  xPadding :: jsnum
  bar_width :: jsnum
  bar_spacing :: jsnum
  graphSegments_Y :: jsnum
  graphSegments_X :: jsnum
  titleColor :: string
  xTextColor :: string
  yTextColor :: string
  yTextSize :: jsnum
  xSegmentColor :: string
  ySegmentColor :: string
  graphValuePrecision :: jsnum
  verbose :: bool

text \<open>\<open>Partial<GraphOptions>\<close>: every field may be absent.\<close>

record PartialGraphOptions =
  p_width :: "jsnum option"
  p_height :: "jsnum option"
  p_backgroundColor :: "RGBA option"
  p_titleText :: "string option"
  p_xAxisText :: "string option"
  p_yAxisText :: "string option"
  p_yMax :: "jsnum option"
  p_yPadding :: "jsnum option"
  p_xPadding :: "jsnum option"
  p_bar_width :: "jsnum option"
  p_bar_spacing :: "jsnum option"
  p_graphSegments_Y :: "jsnum option"
  p_graphSegments_X :: "jsnum option"
  p_titleColor :: "string option"
  p_xTextColor :: "string option"
  p_yTextColor :: "string option"
  p_yTextSize :: "jsnum option"
  p_xSegmentColor :: "string option"
  p_ySegmentColor :: "string option"
  p_graphValuePrecision :: "jsnum option"
  p_verbose :: "bool option"

text \<open>\<open>valueLabel?: string | null\<close>\<close>

datatype value_label = Undefined | Null | Str string

record BarEntry =
  val :: jsnum
  label :: "string option"
  color :: string
  valueLabel :: value_label

record Graph =
  y_offset :: jsnum
  x_offset :: jsnum
  y_padding :: jsnum
  x_padding :: jsnum
  entries :: "BarEntry list"
  options :: GraphOptions

section \<open>The drawing surface\<close>

text \<open>
  The calls made on the 2D context, in the order they are made. An assignment to a
  property of the context is a call too. \<open>Arc x y r\<close> is \<open>ctx.arc(x, y, r, 0, Math.PI * 2)\<close>;
  \<open>SetFontPx n\<close> is \<open>ctx.font = n + "px Cochin"\<close>; \<open>Background\<close> and
  \<open>DrawTextWithFont\<close> are the two drawing helpers of \<open>utils\<close>.
\<close>

datatype ctx_call =
    SetImageSmoothingEnabled bool
  | SetImageSmoothingQuality string
  | Save
  | Restore
  | SetStrokeStyle string
  | SetFillStyle string
  | SetLineWidth jsnum
  | SetFontPx jsnum
  | BeginPath
  | ClosePath
  | Stroke
  | Fill
  | LineTo jsnum jsnum
  | Arc jsnum jsnum jsnum
  | FillRect jsnum jsnum jsnum jsnum
  | FillText string jsnum jsnum
  | Background jsnum jsnum jsnum jsnum
  | DrawTextWithFont string jsnum jsnum string

text \<open>
  Modelled from the spec: \<open>CanvasInstance\<close> of \<open>config/index.ts\<close>, which is not among
  the sources. The surface is shared by the whole process, it is created once with the
  size of the chart that initialises it first, and it reports whether it exists.
\<close>

record CanvasInstance =
  ready :: bool
  WIDTH :: jsnum
  HEIGHT :: jsnum
  calls :: "ctx_call list"

definition init :: "jsnum \<Rightarrow> jsnum \<Rightarrow> CanvasInstance \<Rightarrow> CanvasInstance" where
  "init w h cv = cv\<lparr>ready := True, WIDTH := w, HEIGHT := h\<rparr>"

definition emit :: "ctx_call list \<Rightarrow> CanvasInstance \<Rightarrow> CanvasInstance" where
  "emit cs cv = cv\<lparr>calls := calls cv @ cs\<rparr>"

section \<open>The numeric helpers\<close>

text \<open>
  Modelled from the spec: \<open>max\<close> of \<open>utils\<close>, the maximum of a numeric collection.
  The spec leaves the maximum of an empty collection open; here it is \<open>-Infinity\<close>,
  as \<open>Math.max()\<close> has it, and a NaN among the values gives NaN.
\<close>

fun jmax :: "jsnum \<Rightarrow> jsnum \<Rightarrow> jsnum" where
  "jmax NaN _ = NaN"
| "jmax _ NaN = NaN"
| "jmax a b = (if jlt a b then b else a)"

definition max_of :: "jsnum list \<Rightarrow> jsnum" where
  "max_of xs = foldl jmax NInf xs"

text \<open>
  Modelled from the spec: \<open>normalize\<close> of \<open>utils\<close>, the linear normalisation of a
  value into a sub-range, \<open>normalize(value, lowerBound, upperBound)\<close>.
\<close>

definition normalize :: "jsnum \<Rightarrow> jsnum \<Rightarrow> jsnum \<Rightarrow> jsnum" where
  "normalize v lo hi = jdiv (jsub v lo) (jsub hi lo)"

section \<open>Construction\<close>

definition dflt :: "'a option \<Rightarrow> 'a \<Rightarrow> 'a" where
  "dflt x d = (case x of None \<Rightarrow> d | Some v \<Rightarrow> v)"

text \<open>\<open>(config && config.f) ?? d\<close>\<close>

definition field :: "PartialGraphOptions option \<Rightarrow> (PartialGraphOptions \<Rightarrow> 'a option) \<Rightarrow> 'a \<Rightarrow> 'a" where
  "field config f d = (case config of None \<Rightarrow> d | Some c \<Rightarrow> dflt (f c) d)"

definition resolve :: "PartialGraphOptions option \<Rightarrow> GraphOptions" where
  "resolve config = \<lparr>
     width = field config p_width (Fin 720),
     height = field config p_height (Fin 480),
     backgroundColor = field config p_backgroundColor
       \<lparr>rgba_r = Fin 50, rgba_g = Fin 50, rgba_b = Fin 50, rgba_a = Fin (1 / 2)\<rparr>,
     titleText = field config p_titleText ''title'',
     xAxisText = field config p_xAxisText ''X-Axis'',
     yAxisText = field config p_yAxisText ''Y-Axis'',
     yMax = field config p_yMax (Fin (- 1)),
     yPadding = field config p_yPadding (Fin 0),
     xPadding = field config p_xPadding (Fin 0),
     bar_width = field config p_bar_width (Fin 10),
     bar_spacing = field config p_bar_spacing (Fin 5),
     graphSegments_Y = field config p_graphSegments_Y (Fin 10),
     graphSegments_X = field config p_graphSegments_X (Fin 10),
     titleColor = field config p_titleColor ''rgb(255,255,255)'',
     xTextColor = field config p_xTextColor ''rgb(255,255,255)'',
     yTextColor = field config p_yTextColor ''rgb(255,255,255)'',
     yTextSize = field config p_yTextSize (Fin 10),
     xSegmentColor = field config p_xSegmentColor ''rgb(255,255,255)'',
     ySegmentColor = field config p_ySegmentColor ''rgb(255,255,255)'',
     graphValuePrecision = field config p_graphValuePrecision (Fin 2),
     verbose = field config p_verbose False\<rparr>"

text \<open>
  The constructor: the options are resolved, the paddings are added to the base
  offsets, and the surface is initialised unless it exists already. Logging is left out.
\<close>

definition constructor :: "PartialGraphOptions option \<Rightarrow> CanvasInstance \<Rightarrow> Graph \<times> CanvasInstance" where
  "constructor config cv =
     (let opts = resolve config
      in (\<lparr>y_offset = jadd (Fin 30) (yPadding opts),
           x_offset = jadd (Fin 30) (xPadding opts),
           y_padding = jadd (Fin 30) (yPadding opts),
           x_padding = jadd (Fin 50) (xPadding opts),
           entries = [],
           options = opts\<rparr>,
          if \<not> ready cv then init (width opts) (height opts) cv else cv))"

definition add :: "BarEntry \<Rightarrow> Graph \<Rightarrow> Graph" where
  "add entry gr = gr\<lparr>entries := entries gr @ [entry]\<rparr>"

text \<open>Several entries added in order.\<close>

definition add_all :: "BarEntry list \<Rightarrow> Graph \<Rightarrow> Graph" where
  "add_all es gr = foldl (\<lambda>g e. add e g) gr es"

section \<open>Loops and exceptions\<close>

text \<open>
  One round of a loop body goes on to the next round, breaks out of the loop, or
  raises. A call returns or raises; in both cases the calls made so far stay on the
  surface. A loop that never ends has no outcome (\<open>None\<close>).
\<close>

datatype 's step = Next 's | Break 's | Raise error 's

datatype 's outcome = Returns 's | Throws error 's

text \<open>
  \<open>for (let i = i0; i < n; i++) body\<close>, with the counter an exact natural number.
  With the bound \<open>Infinity\<close> and a body that never breaks, the loop does not end.
\<close>

partial_function (option) for_loop ::
  "(nat \<Rightarrow> 's \<Rightarrow> 's step) \<Rightarrow> jsnum \<Rightarrow> nat \<Rightarrow> 's \<Rightarrow> 's outcome option" where
  "for_loop body n i s =
     (if jlt (Fin (real i)) n then
        (case body i s of
           Next s' \<Rightarrow> for_loop body n (Suc i) s'
         | Break s' \<Rightarrow> Some (Returns s')
         | Raise e s' \<Rightarrow> Some (Throws e s'))
      else Some (Returns s))"

section \<open>Painting the bars\<close>

text \<open>The slot of an array, \<open>undefined\<close> past its end.\<close>

definition entry_at :: "BarEntry list \<Rightarrow> nat \<Rightarrow> BarEntry option" where
  "entry_at es i = (if i < length es then Some (es ! i) else None)"

text \<open>
  The constants of \<open>_draw_bars\<close>; \<open>w\<close> and \<open>h\<close> are \<open>WIDTH\<close> and \<open>HEIGHT\<close> of the
  surface. \<open>_draw_graph_segments\<close> computes the same three quotients and products
  (there \<open>Y_SEGMENTS\<close> is called \<open>y_height_px\<close>).
\<close>

definition Y_SEGMENTS :: "Graph \<Rightarrow> jsnum \<Rightarrow> jsnum" where
  "Y_SEGMENTS gr h = jdiv h (graphSegments_Y (options gr))"

definition maxY_segment :: "Graph \<Rightarrow> jsnum \<Rightarrow> jsnum" where
  "maxY_segment gr h = jmul (Y_SEGMENTS gr h) (jsub (graphSegments_Y (options gr)) (Fin 2))"

definition X_SEGMENTS :: "Graph \<Rightarrow> jsnum \<Rightarrow> jsnum" where
  "X_SEGMENTS gr w = jdiv (jsub w (x_padding gr)) (graphSegments_X (options gr))"

text \<open>The pixel X of slot \<open>i\<close> and the pixel height of the bar of an entry.\<close>

definition bar_X :: "Graph \<Rightarrow> jsnum \<Rightarrow> nat \<Rightarrow> jsnum" where
  "bar_X gr w i = jadd (x_padding gr) (jmul (X_SEGMENTS gr w) (Fin (real i)))"

definition bar_Y :: "Graph \<Rightarrow> jsnum \<Rightarrow> BarEntry \<Rightarrow> jsnum" where
  "bar_Y gr h entry = jmul (normalize (val entry) (Fin 0) (yMax (options gr))) (maxY_segment gr h)"

text \<open>The body of the loop of \<open>_draw_bars\<close> up to \<open>closePath\<close>.\<close>

definition bar_fillRect :: "Graph \<Rightarrow> jsnum \<Rightarrow> jsnum \<Rightarrow> nat \<Rightarrow> ctx_call" where
  "bar_fillRect gr w h i =
     (let entry = entries gr ! i; X = bar_X gr w i; Y = bar_Y gr h entry
      in FillRect X (jsub (jsub h (y_offset gr)) Y) (bar_width (options gr)) Y)"

definition bar_rect :: "Graph \<Rightarrow> jsnum \<Rightarrow> jsnum \<Rightarrow> nat \<Rightarrow> ctx_call list" where
  "bar_rect gr w h i = [SetFillStyle (color (entries gr ! i)), BeginPath, bar_fillRect gr w h i, ClosePath]"

text \<open>
  \<open>const val = y % 1 !== 0 ? y.toFixed(graphValuePrecision) : y\<close>, as the text that
  \<open>val.toString()\<close> gives. It is computed for every bar, whatever its \<open>valueLabel\<close>.
\<close>

definition bar_val :: "jsnum \<Rightarrow> jsnum \<Rightarrow> error + string" where
  "bar_val y precision =
     (if jmod y (Fin 1) \<noteq> Fin 0 then toFixed y precision else Inr (numToString y))"

text \<open>\<open>if (valueLabel !== null) ctx.fillText(valueLabel ?? val.toString(), ...)\<close>\<close>

definition bar_text :: "Graph \<Rightarrow> jsnum \<Rightarrow> jsnum \<Rightarrow> nat \<Rightarrow> string \<Rightarrow> ctx_call list" where
  "bar_text gr w h i v =
     (let entry = entries gr ! i; X = bar_X gr w i; Y = bar_Y gr h entry
      in case valueLabel entry of
           Null \<Rightarrow> []
         | Undefined \<Rightarrow> [FillText v (jadd X (Fin 5)) (jsub (jsub (jsub h (y_offset gr)) Y) (Fin 10))]
         | Str t \<Rightarrow> [FillText t (jadd X (Fin 5)) (jsub (jsub (jsub h (y_offset gr)) Y) (Fin 10))])"

definition bar_body :: "Graph \<Rightarrow> jsnum \<Rightarrow> jsnum \<Rightarrow> nat \<Rightarrow> CanvasInstance \<Rightarrow> CanvasInstance step" where
  "bar_body gr w h i cv =
     (if length (entries gr) \<le> i then Break cv
      else (case bar_val (val (entries gr ! i)) (graphValuePrecision (options gr)) of
              Inl e \<Rightarrow> Raise e (emit (bar_rect gr w h i) cv)
            | Inr v \<Rightarrow> Next (emit (bar_rect gr w h i @ bar_text gr w h i v) cv)))"

definition draw_bars :: "Graph \<Rightarrow> CanvasInstance \<Rightarrow> CanvasInstance outcome option" where
  "draw_bars gr cv =
     (case for_loop (bar_body gr (WIDTH cv) (HEIGHT cv)) (graphSegments_X (options gr)) 0 (emit [Save] cv) of
        None \<Rightarrow> None
      | Some (Throws e cv') \<Rightarrow> Some (Throws e cv')
      | Some (Returns cv') \<Rightarrow> Some (Returns (emit [Restore] cv')))"

section \<open>Painting the outline\<close>

definition outline_calls :: "Graph \<Rightarrow> jsnum \<Rightarrow> jsnum \<Rightarrow> ctx_call list" where
  "outline_calls gr w h =
     [SetImageSmoothingEnabled True, SetImageSmoothingQuality ''high'', Save,
      SetStrokeStyle (titleColor (options gr)), SetFillStyle (titleColor (options gr)),
      SetLineWidth (Fin (3 / 2))] @
     (if titleText (options gr) \<noteq> []
      then [DrawTextWithFont (titleText (options gr)) (jsub (jdiv w (Fin 2)) (Fin 30)) (y_offset gr)
              ''12pt Cochin'']
      else []) @
     [SetStrokeStyle (xTextColor (options gr)), SetFillStyle (xTextColor (options gr))] @
     (if xAxisText (options gr) \<noteq> []
      then [FillText (xAxisText (options gr)) (jsub (jdiv w (Fin 2)) (Fin 10))
              (jadd (jsub h (jdiv (y_offset gr) (Fin 2))) (Fin 10))]
      else []) @
     [BeginPath, LineTo (x_padding gr) (jsub h (y_padding gr)), LineTo (x_padding gr) (y_padding gr),
      Stroke, ClosePath,
      SetStrokeStyle (yTextColor (options gr)), SetFillStyle (yTextColor (options gr))] @
     (if yAxisText (options gr) \<noteq> []
      then [FillText (yAxisText (options gr)) (jsub (jdiv (x_offset gr) (Fin 2)) (Fin 8)) (jdiv h (Fin 2))]
      else []) @
     [BeginPath, LineTo (x_padding gr) (jsub h (y_padding gr)),
      LineTo (jsub w (x_padding gr)) (jsub h (y_padding gr)), Stroke, ClosePath, Restore]"

definition draw_graph_outline :: "Graph \<Rightarrow> CanvasInstance \<Rightarrow> CanvasInstance" where
  "draw_graph_outline gr cv = emit (outline_calls gr (WIDTH cv) (HEIGHT cv)) cv"

section \<open>Painting the ticks\<close>

text \<open>\<open>if (this._options.yMax === -1) this._options.yMax = max(this._entries.map((elt) => elt.val))\<close>\<close>

definition derive_yMax :: "Graph \<Rightarrow> Graph" where
  "derive_yMax gr =
     (if yMax (options gr) = Fin (- 1)
      then gr\<lparr>options := (options gr)\<lparr>yMax := max_of (map val (entries gr))\<rparr>\<rparr>
      else gr)"

definition ytick_Y :: "Graph \<Rightarrow> jsnum \<Rightarrow> nat \<Rightarrow> jsnum" where
  "ytick_Y gr h i = jsub (jsub h (jmul (Y_SEGMENTS gr h) (Fin (real i)))) (y_padding gr)"

definition ytick_mark :: "Graph \<Rightarrow> jsnum \<Rightarrow> nat \<Rightarrow> ctx_call list" where
  "ytick_mark gr h i =
     [SetFillStyle ''#ECF0F1'', SetStrokeStyle ''#ECF0F1'', BeginPath,
      Arc (x_padding gr) (ytick_Y gr h i) (Fin 2), ClosePath, Fill,
      SetFillStyle (ySegmentColor (options gr)), SetStrokeStyle (ySegmentColor (options gr))]"

definition ytick_yVal :: "Graph \<Rightarrow> jsnum \<Rightarrow> nat \<Rightarrow> jsnum" where
  "ytick_yVal gr h i =
     normalize (jmul (jsub (jsub h (y_padding gr)) (ytick_Y gr h i)) (yMax (options gr)))
       (Fin 0) (maxY_segment gr h)"

text \<open>\<open>yVal % 1 === 0 ? yVal.toString() : yVal.toFixed(graphValuePrecision)\<close>\<close>

definition ytick_str :: "jsnum \<Rightarrow> jsnum \<Rightarrow> error + string" where
  "ytick_str yVal precision =
     (if jmod yVal (Fin 1) = Fin 0 then Inr (numToString yVal) else toFixed yVal precision)"

definition ytick_text :: "Graph \<Rightarrow> jsnum \<Rightarrow> nat \<Rightarrow> string \<Rightarrow> ctx_call list" where
  "ytick_text gr h i yValStr =
     (let offset = jadd (Fin 10) (jmul (Fin (real (length yValStr))) (Fin (11 / 2)))
      in [FillText yValStr (jsub (x_padding gr) offset) (jadd (ytick_Y gr h i) (Fin 3))])"

definition ytick_body :: "Graph \<Rightarrow> jsnum \<Rightarrow> nat \<Rightarrow> CanvasInstance \<Rightarrow> CanvasInstance step" where
  "ytick_body gr h i cv =
     (case ytick_str (ytick_yVal gr h i) (graphValuePrecision (options gr)) of
        Inl e \<Rightarrow> Raise e (emit (ytick_mark gr h i) cv)
      | Inr s \<Rightarrow> Next (emit (ytick_mark gr h i @ ytick_text gr h i s) cv))"

definition xtick_mark :: "Graph \<Rightarrow> jsnum \<Rightarrow> jsnum \<Rightarrow> nat \<Rightarrow> ctx_call list" where
  "xtick_mark gr w h i =
     [SetFillStyle ''#ECF0F1'', SetStrokeStyle ''#ECF0F1'', BeginPath,
      Arc (bar_X gr w i) (jsub h (y_padding gr)) (Fin 2), ClosePath, Fill,
      SetFillStyle (xSegmentColor (options gr)), SetStrokeStyle (xSegmentColor (options gr)),
      SetFontPx (yTextSize (options gr))]"

text \<open>
  \<open>(entry && entry.label !== undefined && Number.parseFloat(entry.label)) || NaN\<close>:
  the parsed label when that is a truthy number, NaN in every other case.
\<close>

definition entryFloatVal :: "BarEntry option \<Rightarrow> jsnum" where
  "entryFloatVal entry =
     (case entry of
        None \<Rightarrow> NaN
      | Some e \<Rightarrow>
          (case label e of
             None \<Rightarrow> NaN
           | Some l \<Rightarrow> if truthy (parseFloat l) then parseFloat l else NaN))"

text \<open>The values that the operand of \<open>|| i\<close> can take.\<close>

datatype js_value = JUndefined | JFalse | JStr string | JNum jsnum

fun value_truthy :: "js_value \<Rightarrow> bool" where
  "value_truthy JUndefined = False"
| "value_truthy JFalse = False"
| "value_truthy (JStr s) = (s \<noteq> [])"
| "value_truthy (JNum x) = truthy x"

fun value_toString :: "js_value \<Rightarrow> string" where
  "value_toString (JStr s) = s"
| "value_toString (JNum x) = numToString x"
| "value_toString JFalse = ''false''"
| "value_toString JUndefined = ''undefined''"

text \<open>
  \<open>entry && entry.label !== undefined && (isNaN(entryFloatVal) ? entry.label
     : !(entryFloatVal % 1) ? entryFloatVal : entryFloatVal.toFixed(graphValuePrecision))\<close>
\<close>

definition xtick_operand :: "BarEntry option \<Rightarrow> jsnum \<Rightarrow> error + js_value" where
  "xtick_operand entry precision =
     (case entry of
        None \<Rightarrow> Inr JUndefined
      | Some e \<Rightarrow>
          (case label e of
             None \<Rightarrow> Inr JFalse
           | Some l \<Rightarrow>
               if isNaN (entryFloatVal entry) then Inr (JStr l)
               else if \<not> truthy (jmod (entryFloatVal entry) (Fin 1)) then Inr (JNum (entryFloatVal entry))
               else (case toFixed (entryFloatVal entry) precision of
                       Inl err \<Rightarrow> Inl err
                     | Inr s \<Rightarrow> Inr (JStr s))))"

text \<open>\<open>(operand || i).toString()\<close>\<close>

definition xtick_str :: "BarEntry option \<Rightarrow> jsnum \<Rightarrow> nat \<Rightarrow> error + string" where
  "xtick_str entry precision i =
     (case xtick_operand entry precision of
        Inl err \<Rightarrow> Inl err
      | Inr v \<Rightarrow> Inr (value_toString (if value_truthy v then v else JNum (Fin (real i)))))"

text \<open>\<open>entry?.label !== ""\<close>\<close>

definition label_shown :: "BarEntry option \<Rightarrow> bool" where
  "label_shown entry = (case entry of None \<Rightarrow> True | Some e \<Rightarrow> label e \<noteq> Some [])"

definition xtick_text :: "Graph \<Rightarrow> jsnum \<Rightarrow> jsnum \<Rightarrow> nat \<Rightarrow> string \<Rightarrow> ctx_call list" where
  "xtick_text gr w h i s = [FillText s (bar_X gr w i) (jadd (jsub h (y_offset gr)) (Fin 12))]"

definition xtick_body :: "Graph \<Rightarrow> jsnum \<Rightarrow> jsnum \<Rightarrow> nat \<Rightarrow> CanvasInstance \<Rightarrow> CanvasInstance step" where
  "xtick_body gr w h i cv =
     (let entry = entry_at (entries gr) i
      in if label_shown entry then
           (case xtick_str entry (graphValuePrecision (options gr)) i of
              Inl e \<Rightarrow> Raise e (emit (xtick_mark gr w h i) cv)
            | Inr s \<Rightarrow> Next (emit (xtick_mark gr w h i @ xtick_text gr w h i s) cv))
         else Next (emit (xtick_mark gr w h i) cv))"

definition draw_graph_segments :: "Graph \<Rightarrow> CanvasInstance \<Rightarrow> (Graph \<times> CanvasInstance) outcome option" where
  "draw_graph_segments gr0 cv =
     (let gr = derive_yMax gr0
      in case for_loop (ytick_body gr (HEIGHT cv)) (jsub (graphSegments_Y (options gr0)) (Fin 1)) 0 cv of
           None \<Rightarrow> None
         | Some (Throws e cv1) \<Rightarrow> Some (Throws e (gr, cv1))
         | Some (Returns cv1) \<Rightarrow>
             (case for_loop (xtick_body gr (WIDTH cv) (HEIGHT cv))
                     (jsub (graphSegments_X (options gr0)) (Fin 1)) 0 cv1 of
                None \<Rightarrow> None
              | Some (Throws e cv2) \<Rightarrow> Some (Throws e (gr, cv2))
              | Some (Returns cv2) \<Rightarrow> Some (Returns (gr, cv2))))"

section \<open>Drawing\<close>

definition draw :: "Graph \<Rightarrow> CanvasInstance \<Rightarrow> (Graph \<times> CanvasInstance) outcome option" where
  "draw gr cv =
     (let bg = backgroundColor (options gr);
          cv0 = emit [Background (rgba_r bg) (rgba_g bg) (rgba_b bg) (rgba_a bg)] cv
      in case draw_bars gr cv0 of
           None \<Rightarrow> None
         | Some (Throws e cv1) \<Rightarrow> Some (Throws e (gr, cv1))
         | Some (Returns cv1) \<Rightarrow> draw_graph_segments gr (draw_graph_outline gr cv1))"

section \<open>Sequences of calls on a chart\<close>

datatype api_call = Add BarEntry | Draw

text \<open>A client calling \<open>add\<close> and \<open>draw\<close> in turn; an exception ends the sequence.\<close>

fun run :: "api_call list \<Rightarrow> Graph \<times> CanvasInstance \<Rightarrow> (Graph \<times> CanvasInstance) outcome option" where
  "run [] st = Some (Returns st)"
| "run (Add entry # cs) st = run cs (add entry (fst st), snd st)"
| "run (Draw # cs) st =
     (case draw (fst st) (snd st) of
        Some (Returns st') \<Rightarrow> run cs st'
      | other \<Rightarrow> other)"

fun state_of :: "'s outcome \<Rightarrow> 's" where
  "state_of (Returns s) = s"
| "state_of (Throws e s) = s"

definition yMax_after :: "(Graph \<times> CanvasInstance) outcome option \<Rightarrow> jsnum option" where
  "yMax_after r = map_option (\<lambda>out. yMax (options (fst (state_of out)))) r"

section \<open>Loops that end\<close>

text \<open>The rounds of a loop over a given list of indices.\<close>

fun run_loop :: "(nat \<Rightarrow> 's \<Rightarrow> 's step) \<Rightarrow> nat list \<Rightarrow> 's \<Rightarrow> 's outcome" where
  "run_loop body [] s = Returns s"
| "run_loop body (i # is) s =
     (case body i s of
        Next s' \<Rightarrow> run_loop body is s'
      | Break s' \<Rightarrow> Returns s'
      | Raise e s' \<Rightarrow> Throws e s')"

text \<open>The number of indices \<open>i = 0, 1, ...\<close> with \<open>i < n\<close>, for a bound that is not \<open>Infinity\<close>.\<close>

fun iters :: "jsnum \<Rightarrow> nat" where
  "iters (Fin x) = nat \<lceil>x\<rceil>"
| "iters _ = 0"

text \<open>The digit counts that \<open>toFixed\<close> accepts.\<close>

definition precision_ok :: "jsnum \<Rightarrow> bool" where
  "precision_ok p = (case toIntegerOrInfinity p of None \<Rightarrow> False | Some f \<Rightarrow> 0 \<le> f \<and> f \<le> 100)"

text \<open>The calls of one round of each loop when nothing is raised.\<close>

definition bar_calls :: "Graph \<Rightarrow> jsnum \<Rightarrow> jsnum \<Rightarrow> nat \<Rightarrow> ctx_call list" where
  "bar_calls gr w h i =
     bar_rect gr w h i @
     bar_text gr w h i (projr (bar_val (val (entries gr ! i)) (graphValuePrecision (options gr))))"

definition ytick_calls :: "Graph \<Rightarrow> jsnum \<Rightarrow> nat \<Rightarrow> ctx_call list" where
  "ytick_calls gr h i =
     ytick_mark gr h i @
     ytick_text gr h i (projr (ytick_str (ytick_yVal gr h i) (graphValuePrecision (options gr))))"

definition xtick_calls :: "Graph \<Rightarrow> jsnum \<Rightarrow> jsnum \<Rightarrow> nat \<Rightarrow> ctx_call list" where
  "xtick_calls gr w h i =
     xtick_mark gr w h i @
     (if label_shown (entry_at (entries gr) i)
      then xtick_text gr w h i
             (projr (xtick_str (entry_at (entries gr) i) (graphValuePrecision (options gr)) i))
      else [])"

definition bars_part :: "Graph \<Rightarrow> jsnum \<Rightarrow> jsnum \<Rightarrow> ctx_call list" where
  "bars_part gr w h =
     concat (map (bar_calls gr w h)
       [0..<min (iters (graphSegments_X (options gr))) (length (entries gr))])"

definition yticks_part :: "Graph \<Rightarrow> jsnum \<Rightarrow> ctx_call list" where
  "yticks_part gr h =
     concat (map (ytick_calls gr h) [0..<iters (jsub (graphSegments_Y (options gr)) (Fin 1))])"

definition xticks_part :: "Graph \<Rightarrow> jsnum \<Rightarrow> jsnum \<Rightarrow> ctx_call list" where
  "xticks_part gr w h =
     concat (map (xtick_calls gr w h) [0..<iters (jsub (graphSegments_X (options gr)) (Fin 1))])"

definition background_call :: "Graph \<Rightarrow> ctx_call" where
  "background_call gr =
     (let bg = backgroundColor (options gr)
      in Background (rgba_r bg) (rgba_g bg) (rgba_b bg) (rgba_a bg))"

text \<open>All calls of one \<open>draw\<close> that returns.\<close>

definition frame :: "Graph \<Rightarrow> jsnum \<Rightarrow> jsnum \<Rightarrow> ctx_call list" where
  "frame gr w h =
     [background_call gr, Save] @ bars_part gr w h @ [Restore] @ outline_calls gr w h @
     yticks_part (derive_yMax gr) h @ xticks_part (derive_yMax gr) w h"

text \<open>What is read off a list of calls.\<close>

fun isFillRect :: "ctx_call \<Rightarrow> bool" where
  "isFillRect (FillRect x y w h) = True"
| "isFillRect _ = False"

fun isFillText :: "ctx_call \<Rightarrow> bool" where
  "isFillText (FillText s x y) = True"
| "isFillText _ = False"

fun text_of :: "ctx_call \<Rightarrow> string" where
  "text_of (FillText s x y) = s"
| "text_of _ = []"

fun rect_height :: "ctx_call \<Rightarrow> jsnum" where
  "rect_height (FillRect x y w h) = h"
| "rect_height _ = NaN"

definition rects :: "ctx_call list \<Rightarrow> ctx_call list" where
  "rects cs = filter isFillRect cs"

definition texts :: "ctx_call list \<Rightarrow> string list" where
  "texts cs = map text_of (filter isFillText cs)"

text \<open>The calls that were added to a surface.\<close>

definition new_calls :: "CanvasInstance \<Rightarrow> CanvasInstance \<Rightarrow> ctx_call list" where
  "new_calls cv cv' = drop (length (calls cv)) (calls cv')"

text \<open>A chart with another \<open>bar_spacing\<close>.\<close>

definition with_spacing :: "jsnum \<Rightarrow> Graph \<Rightarrow> Graph" where
  "with_spacing x gr = gr\<lparr>options := (options gr)\<lparr>bar_spacing := x\<rparr>\<rparr>"

definition texts_after :: "(Graph \<times> CanvasInstance) outcome option \<Rightarrow> string list option" where
  "texts_after r = map_option (\<lambda>out. texts (calls (snd (state_of out)))) r"

fun step_state :: "'s step \<Rightarrow> 's" where
  "step_state (Next s) = s"
| "step_state (Break s) = s"
| "step_state (Raise e s) = s"

definition rects_after :: "(Graph \<times> CanvasInstance) outcome option \<Rightarrow> ctx_call list option" where
  "rects_after r = map_option (\<lambda>out. rects (calls (snd (state_of out)))) r"

section \<open>The documented defaults\<close>

text \<open>The table of defaults of the specification; \<open>yMax\<close> unset is the sentinel \<open>-1\<close>.\<close>

definition documented_defaults :: GraphOptions where
  "documented_defaults = \<lparr>
     width = Fin 720, height = Fin 480,
     backgroundColor = \<lparr>rgba_r = Fin 50, rgba_g = Fin 50, rgba_b = Fin 50, rgba_a = Fin (1 / 2)\<rparr>,
     titleText = ''title'', xAxisText = ''X-Axis'', yAxisText = ''Y-Axis'',
     yMax = Fin (- 1), yPadding = Fin 0, xPadding = Fin 0,
     bar_width = Fin 10, bar_spacing = Fin 5,
     graphSegments_Y = Fin 10, graphSegments_X = Fin 10,
     titleColor = ''rgb(255,255,255)'', xTextColor = ''rgb(255,255,255)'',
     yTextColor = ''rgb(255,255,255)'', yTextSize = Fin 10,
     xSegmentColor = ''rgb(255,255,255)'', ySegmentColor = ''rgb(255,255,255)'',
     graphValuePrecision = Fin 2, verbose = False\<rparr>"

text \<open>The configuration object that supplies every field of given options.\<close>

definition full_config :: "GraphOptions \<Rightarrow> PartialGraphOptions" where
  "full_config opts = \<lparr>
     p_width = Some (width opts), p_height = Some (height opts),
     p_backgroundColor = Some (backgroundColor opts),
     p_titleText = Some (titleText opts), p_xAxisText = Some (xAxisText opts),
     p_yAxisText = Some (yAxisText opts), p_yMax = Some (yMax opts),
     p_yPadding = Some (yPadding opts), p_xPadding = Some (xPadding opts),
     p_bar_width = Some (bar_width opts), p_bar_spacing = Some (bar_spacing opts),
     p_graphSegments_Y = Some (graphSegments_Y opts), p_graphSegments_X = Some (graphSegments_X opts),
     p_titleColor = Some (titleColor opts), p_xTextColor = Some (xTextColor opts),
     p_yTextColor = Some (yTextColor opts), p_yTextSize = Some (yTextSize opts),
     p_xSegmentColor = Some (xSegmentColor opts), p_ySegmentColor = Some (ySegmentColor opts),
     p_graphValuePrecision = Some (graphValuePrecision opts), p_verbose = Some (verbose opts)\<rparr>"

section \<open>Example charts\<close>

definition blank_surface :: CanvasInstance where
  "blank_surface = \<lparr>ready = False, WIDTH = NaN, HEIGHT = NaN, calls = []\<rparr>"

definition bar :: "jsnum \<Rightarrow> string option \<Rightarrow> value_label \<Rightarrow> BarEntry" where
  "bar v l t = \<lparr>val = v, label = l, color = ''red'', valueLabel = t\<rparr>"

definition no_options :: PartialGraphOptions where
  "no_options = \<lparr>
     p_width = None, p_height = None, p_backgroundColor = None, p_titleText = None,
     p_xAxisText = None, p_yAxisText = None, p_yMax = None, p_yPadding = None, p_xPadding = None,
     p_bar_width = None, p_bar_spacing = None, p_graphSegments_Y = None, p_graphSegments_X = None,
     p_titleColor = None, p_xTextColor = None, p_yTextColor = None, p_yTextSize = None,
     p_xSegmentColor = None, p_ySegmentColor = None, p_graphValuePrecision = None,
     p_verbose = None\<rparr>"

text \<open>The configuration and the entries of the end-to-end scenario of the specification.\<close>

definition scenario_config :: PartialGraphOptions where
  "scenario_config = no_options\<lparr>p_graphSegments_X := Some (Fin 3),
     p_graphSegments_Y := Some (Fin 5), p_yMax := Some (Fin 100)\<rparr>"

definition scenario_entries :: "BarEntry list" where
  "scenario_entries = [\<lparr>val = Fin 50, label = None, color = ''red'', valueLabel = Undefined\<rparr>,
     \<lparr>val = Fin 100, label = None, color = ''blue'', valueLabel = Undefined\<rparr>,
     \<lparr>val = Fin 25, label = None, color = ''green'', valueLabel = Null\<rparr>]"

text \<open>
  Five slots and nothing painted as text but the labels of the x ticks: no captions of
  the axes and no y ticks.
\<close>

definition five_slots_config :: PartialGraphOptions where
  "five_slots_config = no_options\<lparr>p_graphSegments_X := Some (Fin 5),
     p_graphSegments_Y := Some (Fin 1), p_xAxisText := Some [], p_yAxisText := Some []\<rparr>"

text \<open>A digit count that \<open>toFixed\<close> refuses.\<close>

definition wide_config :: PartialGraphOptions where
  "wide_config = no_options\<lparr>p_graphValuePrecision := Some (Fin 101)\<rparr>"

text \<open>The chart built from a configuration on a fresh surface, with entries added in order.\<close>

definition chart_of :: "PartialGraphOptions option \<Rightarrow> BarEntry list \<Rightarrow> Graph" where
  "chart_of config es = add_all es (fst (constructor config blank_surface))"

definition surface_of :: "PartialGraphOptions option \<Rightarrow> CanvasInstance" where
  "surface_of config = snd (constructor config blank_surface)"

section \<open>What a loop that ends computes\<close>

lemma emit_emit: "emit b (emit a cv) = emit (a @ b) cv"
  by (simp add: emit_def)

lemma calls_emit: "calls (emit cs cv) = calls cv @ cs"
  by (simp add: emit_def)

lemma dims_emit: "WIDTH (emit cs cv) = WIDTH cv" "HEIGHT (emit cs cv) = HEIGHT cv"
  by (simp_all add: emit_def)

lemma new_calls_emit: "new_calls cv (emit cs cv) = cs"
  by (simp add: new_calls_def emit_def)

lemma jlt_iters: "n \<noteq> PInf \<Longrightarrow> jlt (Fin (real i)) n = (i < iters n)"
proof (cases n)
  case (Fin x)
  have "(real i < x) = (int i < \<lceil>x\<rceil>)"
    by (simp add: less_ceiling_iff)
  also have "\<dots> = (i < nat \<lceil>x\<rceil>)"
    by linarith
  finally show ?thesis using Fin by simp
qed simp_all

lemma for_loop_run:
  assumes "n \<noteq> PInf"
  shows "for_loop body n i s = Some (run_loop body [i..<iters n] s)"
proof (induction "iters n - i" arbitrary: i s)
  case 0
  then have le: "iters n \<le> i" by simp
  then have "\<not> jlt (Fin (real i)) n" using assms by (simp add: jlt_iters)
  then show ?case using le by (subst for_loop.simps) simp
next
  case (Suc k)
  then have lt: "i < iters n" by simp
  then have "jlt (Fin (real i)) n" using assms by (simp add: jlt_iters)
  moreover have "[i..<iters n] = i # [Suc i..<iters n]" using lt by (simp add: upt_conv_Cons)
  moreover have "\<And>s'. for_loop body n (Suc i) s' = Some (run_loop body [Suc i..<iters n] s')"
    using Suc by simp
  ultimately show ?case
    by (subst for_loop.simps) (simp split: step.split)
qed

lemma run_loop_emit:
  assumes "\<And>i s. i \<in> set is \<Longrightarrow> body i s = Next (emit (f i) s)"
  shows "run_loop body is s = Returns (emit (concat (map f is)) s)"
  using assms
proof (induction "is" arbitrary: s)
  case Nil
  then show ?case by (simp add: emit_def)
next
  case (Cons i "is")
  then show ?case by (simp add: emit_emit)
qed

lemma run_loop_break:
  assumes "\<And>i s. i < n \<Longrightarrow> i < k \<Longrightarrow> body i s = Next (emit (f i) s)"
    and "\<And>i s. k \<le> i \<Longrightarrow> body i s = Break s"
  shows "run_loop body [j..<n] s = Returns (emit (concat (map f [j..<min n k])) s)"
proof (induction "n - j" arbitrary: j s)
  case 0
  then show ?case by (simp add: emit_def)
next
  case (Suc d)
  then have lt: "j < n" by simp
  then have up: "[j..<n] = j # [Suc j..<n]" by (simp add: upt_conv_Cons)
  show ?case
  proof (cases "j < k")
    case True
    then have "[j..<min n k] = j # [Suc j..<min n k]" using lt by (simp add: upt_conv_Cons)
    moreover have "run_loop body [Suc j..<n] (emit (f j) s) =
        Returns (emit (concat (map f [Suc j..<min n k])) (emit (f j) s))"
      using Suc by simp
    moreover have "body j s = Next (emit (f j) s)" using lt True by (rule assms(1))
    ultimately show ?thesis using up by (simp add: emit_emit)
  next
    case False
    then have "[j..<min n k] = []" by simp
    then show ?thesis using False up by (simp add: assms(2) emit_def)
  qed
qed

lemma precision_ok_toFixed: "precision_ok p \<Longrightarrow> toFixed x p = Inr (projr (toFixed x p))"
  by (auto simp: precision_ok_def toFixed_def split: option.splits jsnum.splits)

lemma bar_val_ok: "precision_ok p \<Longrightarrow> bar_val y p = Inr (projr (bar_val y p))"
  using precision_ok_toFixed [of p y] by (simp add: bar_val_def)

lemma ytick_str_ok: "precision_ok p \<Longrightarrow> ytick_str y p = Inr (projr (ytick_str y p))"
  using precision_ok_toFixed [of p y] by (simp add: ytick_str_def)

lemma xtick_str_ok: "precision_ok p \<Longrightarrow> xtick_str e p i = Inr (projr (xtick_str e p i))"
  using precision_ok_toFixed [of p "entryFloatVal e"]
  by (cases "toFixed (entryFloatVal e) p")
     (auto simp: xtick_str_def xtick_operand_def split: option.splits)

lemma bar_body_ok:
  assumes "precision_ok (graphValuePrecision (options gr))"
  shows "i < length (entries gr) \<Longrightarrow> bar_body gr w h i cv = Next (emit (bar_calls gr w h i) cv)"
    and "length (entries gr) \<le> i \<Longrightarrow> bar_body gr w h i cv = Break cv"
  using bar_val_ok [OF assms, of "val (entries gr ! i)"]
  by (auto simp: bar_body_def bar_calls_def split: sum.splits)

lemma ytick_body_ok:
  assumes "precision_ok (graphValuePrecision (options gr))"
  shows "ytick_body gr h i cv = Next (emit (ytick_calls gr h i) cv)"
  using ytick_str_ok [OF assms, of "ytick_yVal gr h i"]
  by (auto simp: ytick_body_def ytick_calls_def split: sum.splits)

lemma xtick_body_ok:
  assumes "precision_ok (graphValuePrecision (options gr))"
  shows "xtick_body gr w h i cv = Next (emit (xtick_calls gr w h i) cv)"
  using xtick_str_ok [OF assms, of "entry_at (entries gr) i" i]
  by (auto simp: xtick_body_def xtick_calls_def Let_def split: sum.splits)

lemma options_derive:
  "graphValuePrecision (options (derive_yMax gr)) = graphValuePrecision (options gr)"
  "graphSegments_X (options (derive_yMax gr)) = graphSegments_X (options gr)"
  "graphSegments_Y (options (derive_yMax gr)) = graphSegments_Y (options gr)"
  "entries (derive_yMax gr) = entries gr"
  by (simp_all add: derive_yMax_def)

lemma jsub_one_PInf: "jsub n (Fin 1) = PInf \<longleftrightarrow> n = PInf"
  by (cases n) (simp_all add: jsub_def)

lemma draw_bars_returns:
  assumes "graphSegments_X (options gr) \<noteq> PInf"
    and "precision_ok (graphValuePrecision (options gr))"
  shows "draw_bars gr cv = Some (Returns (emit ([Save] @ bars_part gr (WIDTH cv) (HEIGHT cv) @ [Restore]) cv))"
proof -
  have "run_loop (bar_body gr (WIDTH cv) (HEIGHT cv)) [0..<iters (graphSegments_X (options gr))] (emit [Save] cv)
      = Returns (emit (bars_part gr (WIDTH cv) (HEIGHT cv)) (emit [Save] cv))"
    unfolding bars_part_def
    by (rule run_loop_break) (simp_all add: bar_body_ok [OF assms(2)])
  then show ?thesis
    by (simp add: draw_bars_def for_loop_run [OF assms(1)] dims_emit emit_emit)
qed

lemma draw_graph_segments_returns:
  assumes "graphSegments_X (options gr) \<noteq> PInf"
    and "graphSegments_Y (options gr) \<noteq> PInf"
    and "precision_ok (graphValuePrecision (options gr))"
  shows "draw_graph_segments gr cv = Some (Returns (derive_yMax gr,
     emit (yticks_part (derive_yMax gr) (HEIGHT cv) @ xticks_part (derive_yMax gr) (WIDTH cv) (HEIGHT cv)) cv))"
proof -
  have p: "precision_ok (graphValuePrecision (options (derive_yMax gr)))"
    using assms(3) by (simp add: options_derive)
  have y: "jsub (graphSegments_Y (options gr)) (Fin 1) \<noteq> PInf"
    using assms(2) by (simp add: jsub_one_PInf)
  have x: "jsub (graphSegments_X (options gr)) (Fin 1) \<noteq> PInf"
    using assms(1) by (simp add: jsub_one_PInf)
  have ly: "\<And>s. run_loop (ytick_body (derive_yMax gr) (HEIGHT cv))
        [0..<iters (jsub (graphSegments_Y (options gr)) (Fin 1))] s
      = Returns (emit (yticks_part (derive_yMax gr) (HEIGHT cv)) s)"
    unfolding yticks_part_def options_derive
    by (rule run_loop_emit) (simp add: ytick_body_ok [OF p])
  have lx: "\<And>s. run_loop (xtick_body (derive_yMax gr) (WIDTH cv) (HEIGHT cv))
        [0..<iters (jsub (graphSegments_X (options gr)) (Fin 1))] s
      = Returns (emit (xticks_part (derive_yMax gr) (WIDTH cv) (HEIGHT cv)) s)"
    unfolding xticks_part_def options_derive
    by (rule run_loop_emit) (simp add: xtick_body_ok [OF p])
  show ?thesis
    by (simp add: draw_graph_segments_def Let_def for_loop_run [OF y] for_loop_run [OF x] ly lx emit_emit)
qed

lemma draw_returns:
  assumes "graphSegments_X (options gr) \<noteq> PInf"
    and "graphSegments_Y (options gr) \<noteq> PInf"
    and "precision_ok (graphValuePrecision (options gr))"
  shows "draw gr cv = Some (Returns (derive_yMax gr, emit (frame gr (WIDTH cv) (HEIGHT cv)) cv))"
  by (simp add: draw_def Let_def draw_bars_returns [OF assms(1) assms(3)]
      draw_graph_segments_returns [OF assms] draw_graph_outline_def dims_emit emit_emit
      frame_def background_call_def)

section \<open>Resolution of the configuration\<close>

text \<open>
  C8. Constructing a chart from a configuration object that supplies every field gives
  options equal to the supplied ones; constructing it from a partial object gives, field by
  field, the supplied value or else the documented default; with no object at all the
  options are the documented defaults.
\<close>

theorem C8_resolution_round_trip:
  fixes opts :: GraphOptions and c :: PartialGraphOptions and cv :: CanvasInstance
  defines "res \<equiv> options (fst (constructor (Some c) cv))"
  shows "options (fst (constructor (Some (full_config opts)) cv)) = opts
    \<and> options (fst (constructor None cv)) = documented_defaults
    \<and> width res = (case p_width c of Some v \<Rightarrow> v | None \<Rightarrow> width documented_defaults)
    \<and> height res = (case p_height c of Some v \<Rightarrow> v | None \<Rightarrow> height documented_defaults)
    \<and> backgroundColor res = (case p_backgroundColor c of Some v \<Rightarrow> v | None \<Rightarrow> backgroundColor documented_defaults)
    \<and> titleText res = (case p_titleText c of Some v \<Rightarrow> v | None \<Rightarrow> titleText documented_defaults)
    \<and> xAxisText res = (case p_xAxisText c of Some v \<Rightarrow> v | None \<Rightarrow> xAxisText documented_defaults)
    \<and> yAxisText res = (case p_yAxisText c of Some v \<Rightarrow> v | None \<Rightarrow> yAxisText documented_defaults)
    \<and> yMax res = (case p_yMax c of Some v \<Rightarrow> v | None \<Rightarrow> yMax documented_defaults)
    \<and> yPadding res = (case p_yPadding c of Some v \<Rightarrow> v | None \<Rightarrow> yPadding documented_defaults)
    \<and> xPadding res = (case p_xPadding c of Some v \<Rightarrow> v | None \<Rightarrow> xPadding documented_defaults)
    \<and> bar_width res = (case p_bar_width c of Some v \<Rightarrow> v | None \<Rightarrow> bar_width documented_defaults)
    \<and> bar_spacing res = (case p_bar_spacing c of Some v \<Rightarrow> v | None \<Rightarrow> bar_spacing documented_defaults)
    \<and> graphSegments_Y res = (case p_graphSegments_Y c of Some v \<Rightarrow> v | None \<Rightarrow> graphSegments_Y documented_defaults)
    \<and> graphSegments_X res = (case p_graphSegments_X c of Some v \<Rightarrow> v | None \<Rightarrow> graphSegments_X documented_defaults)
    \<and> titleColor res = (case p_titleColor c of Some v \<Rightarrow> v | None \<Rightarrow> titleColor documented_defaults)
    \<and> xTextColor res = (case p_xTextColor c of Some v \<Rightarrow> v | None \<Rightarrow> xTextColor documented_defaults)
    \<and> yTextColor res = (case p_yTextColor c of Some v \<Rightarrow> v | None \<Rightarrow> yTextColor documented_defaults)
    \<and> yTextSize res = (case p_yTextSize c of Some v \<Rightarrow> v | None \<Rightarrow> yTextSize documented_defaults)
    \<and> xSegmentColor res = (case p_xSegmentColor c of Some v \<Rightarrow> v | None \<Rightarrow> xSegmentColor documented_defaults)
    \<and> ySegmentColor res = (case p_ySegmentColor c of Some v \<Rightarrow> v | None \<Rightarrow> ySegmentColor documented_defaults)
    \<and> graphValuePrecision res = (case p_graphValuePrecision c of Some v \<Rightarrow> v | None \<Rightarrow> graphValuePrecision documented_defaults)
    \<and> verbose res = (case p_verbose c of Some v \<Rightarrow> v | None \<Rightarrow> verbose documented_defaults)"
  unfolding res_def
  apply (intro conjI)
  by (simp_all add: constructor_def resolve_def field_def dflt_def full_config_def
      documented_defaults_def Let_def split: option.split)

section \<open>Labels that parse as zero\<close>

lemma entries_add_all: "entries (add_all es gr) = entries gr @ es"
  unfolding add_all_def by (induction es rule: rev_induct) (simp_all add: add_def)

lemma options_add_all: "options (add_all es gr) = options gr"
  unfolding add_all_def by (induction es rule: rev_induct) (simp_all add: add_def)

lemma entries_chart_of: "entries (chart_of config es) = es"
  by (simp add: chart_of_def entries_add_all constructor_def Let_def)




section \<open>The text above a bar\<close>

lemma options_chart_of: "options (chart_of config es) = resolve config"
  by (simp add: chart_of_def options_add_all constructor_def Let_def)

lemma precision_default: "precision_ok (graphValuePrecision (resolve None))"
  by (simp add: resolve_def field_def precision_ok_def trunc_def)

lemma no_text_in_bar_rect: "filter isFillText (bar_rect gr w h i) = []"
  by (simp add: bar_rect_def bar_fillRect_def Let_def)

section \<open>The rectangles of the bars\<close>

lemma rects_append: "rects (xs @ ys) = rects xs @ rects ys"
  by (simp add: rects_def)

lemma rects_concat_none:
  assumes "\<And>i. rects (f i) = []"
  shows "rects (concat (map f is)) = []"
  using assms by (induction "is") (simp_all add: rects_append, simp add: rects_def)

lemma rects_concat_one:
  assumes "\<And>i. rects (f i) = [g i]"
  shows "rects (concat (map f is)) = map g is"
  using assms by (induction "is") (simp_all add: rects_append, simp add: rects_def)

lemma rects_bar_calls: "rects (bar_calls gr w h i) = [bar_fillRect gr w h i]"
  by (simp add: rects_def bar_calls_def bar_rect_def bar_fillRect_def bar_text_def Let_def
      split: value_label.split)

lemma rects_ytick_calls: "rects (ytick_calls gr h i) = []"
  by (simp add: rects_def ytick_calls_def ytick_mark_def ytick_text_def Let_def)

lemma rects_xtick_calls: "rects (xtick_calls gr w h i) = []"
  by (simp add: rects_def xtick_calls_def xtick_mark_def xtick_text_def)

lemma rects_outline: "rects (outline_calls gr w h) = []"
  by (simp add: rects_def outline_calls_def)

lemma rects_frame:
  "rects (frame gr w h) =
     map (bar_fillRect gr w h) [0..<min (iters (graphSegments_X (options gr))) (length (entries gr))]"
proof -
  have b: "rects (bars_part gr w h) =
      map (bar_fillRect gr w h) [0..<min (iters (graphSegments_X (options gr))) (length (entries gr))]"
    unfolding bars_part_def by (rule rects_concat_one) (rule rects_bar_calls)
  have y: "rects (yticks_part (derive_yMax gr) h) = []"
    unfolding yticks_part_def by (rule rects_concat_none) (rule rects_ytick_calls)
  have x: "rects (xticks_part (derive_yMax gr) w h) = []"
    unfolding xticks_part_def by (rule rects_concat_none) (rule rects_xtick_calls)
  have h: "rects [background_call gr, Save] = []" "rects [Restore] = []"
    by (simp_all add: rects_def background_call_def Let_def)
  show ?thesis
    by (simp only: frame_def rects_append b y x h rects_outline append_Nil append_Nil2)
qed

lemma map_nth_take: "map (\<lambda>i. f (xs ! i)) [0..<min n (length xs)] = map f (take n xs)"
  by (rule nth_equalityI) simp_all

lemma jsub_zero: "jsub x (Fin 0) = x"
  by (cases x) (simp_all add: jsub_def)

lemma normalize_zero: "normalize v (Fin 0) hi = jdiv v hi"
  by (simp add: normalize_def jsub_zero)

lemma scale_twice: "jmul (jdiv (jmul (Fin 2) v) m) s = jmul (Fin 2) (jmul (jdiv v m) s)"
  by (cases v; cases m; cases s)
     (auto simp: inf_of_sign_def zero_less_mult_iff zero_less_divide_iff mult_less_0_iff
        divide_less_0_iff not_less)


lemma draw_rects:
  assumes "graphSegments_X (options gr) \<noteq> PInf"
    and "graphSegments_Y (options gr) \<noteq> PInf"
    and "precision_ok (graphValuePrecision (options gr))"
  shows "\<exists>gr' cv'. draw gr cv = Some (Returns (gr', cv'))
     \<and> rects (new_calls cv cv') = map (bar_fillRect gr (WIDTH cv) (HEIGHT cv))
          [0..<min (iters (graphSegments_X (options gr))) (length (entries gr))]"
  by (simp add: draw_returns [OF assms] new_calls_emit rects_frame)

lemma bar_Y_formula:
  "bar_Y gr h e = jmul (jdiv (val e) (yMax (options gr)))
     (jmul (jdiv h (graphSegments_Y (options gr))) (jsub (graphSegments_Y (options gr)) (Fin 2)))"
  by (simp add: bar_Y_def normalize_zero maxY_segment_def Y_SEGMENTS_def)

lemma rect_height_bar: "rect_height (bar_fillRect gr w h i) = bar_Y gr h (entries gr ! i)"
  by (simp add: bar_fillRect_def Let_def)

text \<open>
  C3. Every bar that \<open>draw\<close> paints has the pixel height
  \<open>(v / yMax) * ((HEIGHT / graphSegments_Y) * (graphSegments_Y - 2))\<close>, where \<open>v\<close> is the
  value of its entry, \<open>yMax\<close> the axis maximum in the options when \<open>draw\<close> starts and
  \<open>HEIGHT\<close> the height of the surface; the height of the bar of the value \<open>2 * v\<close> is
  twice the height of the bar of \<open>v\<close>; and the surface that a chart opens has the height
  of the options of that chart.
\<close>

theorem C3_bar_height:
  assumes "graphSegments_X (options gr) \<noteq> PInf"
    and "graphSegments_Y (options gr) \<noteq> PInf"
    and "precision_ok (graphValuePrecision (options gr))"
  shows "(\<exists>gr' cv'. draw gr cv = Some (Returns (gr', cv'))
       \<and> map rect_height (rects (new_calls cv cv')) =
           map (\<lambda>e. jmul (jdiv (val e) (yMax (options gr)))
                  (jmul (jdiv (HEIGHT cv) (graphSegments_Y (options gr)))
                     (jsub (graphSegments_Y (options gr)) (Fin 2))))
             (take (iters (graphSegments_X (options gr))) (entries gr)))
     \<and> bar_Y gr h (e\<lparr>val := jmul (Fin 2) (val e)\<rparr>) = jmul (Fin 2) (bar_Y gr h e)
     \<and> (\<not> ready cv0 \<longrightarrow>
         HEIGHT (snd (constructor config cv0)) = height (options (fst (constructor config cv0))))"
proof -
  obtain gr' cv' where d: "draw gr cv = Some (Returns (gr', cv'))"
    and r: "rects (new_calls cv cv') = map (bar_fillRect gr (WIDTH cv) (HEIGHT cv))
          [0..<min (iters (graphSegments_X (options gr))) (length (entries gr))]"
    using draw_rects [OF assms] by blast
  have "map rect_height (rects (new_calls cv cv')) =
      map (\<lambda>i. bar_Y gr (HEIGHT cv) (entries gr ! i))
        [0..<min (iters (graphSegments_X (options gr))) (length (entries gr))]"
    by (simp add: r rect_height_bar)
  also have "\<dots> = map (bar_Y gr (HEIGHT cv)) (take (iters (graphSegments_X (options gr))) (entries gr))"
    by (rule map_nth_take)
  finally have "map rect_height (rects (new_calls cv cv')) =
         map (\<lambda>e. jmul (jdiv (val e) (yMax (options gr)))
                (jmul (jdiv (HEIGHT cv) (graphSegments_Y (options gr)))
                   (jsub (graphSegments_Y (options gr)) (Fin 2))))
           (take (iters (graphSegments_X (options gr))) (entries gr))"
    by (simp add: bar_Y_formula)
  with d have 1: "\<exists>gr' cv'. draw gr cv = Some (Returns (gr', cv'))
     \<and> map rect_height (rects (new_calls cv cv')) =
         map (\<lambda>e. jmul (jdiv (val e) (yMax (options gr)))
                (jmul (jdiv (HEIGHT cv) (graphSegments_Y (options gr)))
                   (jsub (graphSegments_Y (options gr)) (Fin 2))))
           (take (iters (graphSegments_X (options gr))) (entries gr))"
    by blast
  have 2: "bar_Y gr h (e\<lparr>val := jmul (Fin 2) (val e)\<rparr>) = jmul (Fin 2) (bar_Y gr h e)"
    by (simp add: bar_Y_formula scale_twice)
  have 3: "\<not> ready cv0 \<longrightarrow>
         HEIGHT (snd (constructor config cv0)) = height (options (fst (constructor config cv0)))"
    by (simp add: constructor_def Let_def init_def)
  from 1 2 3 show ?thesis by (intro conjI)
qed

lemma scenario_options:
  "graphSegments_X (options (chart_of (Some scenario_config) es)) = Fin 3"
  "graphSegments_Y (options (chart_of (Some scenario_config) es)) = Fin 5"
  "yMax (options (chart_of (Some scenario_config) es)) = Fin 100"
  "graphValuePrecision (options (chart_of (Some scenario_config) es)) = Fin 2"
  "height (options (chart_of (Some scenario_config) es)) = Fin 480"
  by (simp_all add: options_chart_of resolve_def field_def dflt_def scenario_config_def no_options_def)

lemma scenario_surface:
  "HEIGHT (surface_of (Some scenario_config)) = Fin 480"
  "WIDTH (surface_of (Some scenario_config)) = Fin 720"
  by (simp_all add: surface_of_def constructor_def Let_def init_def blank_surface_def resolve_def
      field_def dflt_def scenario_config_def no_options_def)

lemma precision_two: "precision_ok (Fin 2)"
  by (simp add: precision_ok_def trunc_def)

theorem C3_bar_height_witness:
  "graphSegments_X (options (chart_of (Some scenario_config) scenario_entries)) \<noteq> PInf
   \<and> graphSegments_Y (options (chart_of (Some scenario_config) scenario_entries)) \<noteq> PInf
   \<and> precision_ok (graphValuePrecision (options (chart_of (Some scenario_config) scenario_entries)))
   \<and> \<not> ready blank_surface
   \<and> (\<exists>gr' cv'. draw (chart_of (Some scenario_config) scenario_entries)
          (surface_of (Some scenario_config)) = Some (Returns (gr', cv'))
        \<and> map rect_height (rects (new_calls (surface_of (Some scenario_config)) cv')) =
            [Fin 144, Fin 288, Fin 72])
   \<and> HEIGHT (snd (constructor (Some scenario_config) blank_surface)) =
       height (options (fst (constructor (Some scenario_config) blank_surface)))"
proof -
  let ?G = "chart_of (Some scenario_config) scenario_entries"
  have h1: "graphSegments_X (options ?G) \<noteq> PInf" by (simp add: scenario_options)
  have h2: "graphSegments_Y (options ?G) \<noteq> PInf" by (simp add: scenario_options)
  have h3: "precision_ok (graphValuePrecision (options ?G))"
    by (simp add: scenario_options precision_two)
  have h4: "\<not> ready blank_surface" by (simp add: blank_surface_def)
  show ?thesis
    using h1 h2 h3 h4
      C3_bar_height [OF h1 h2 h3, of "surface_of (Some scenario_config)" _ _ blank_surface
        "Some scenario_config"]
    by (simp add: scenario_options scenario_surface entries_chart_of scenario_entries_def jsub_def)
qed

section \<open>The scale of the first frame\<close>


lemma yMax_derive_unset:
  "yMax (options gr) = Fin (- 1) \<Longrightarrow>
     yMax (options (derive_yMax gr)) = max_of (map val (entries gr))"
  by (simp add: derive_yMax_def)




lemma default_options:
  "graphSegments_X (options (chart_of None es)) = Fin 10"
  "graphSegments_Y (options (chart_of None es)) = Fin 10"
  "graphValuePrecision (options (chart_of None es)) = Fin 2"
  "yMax (options (chart_of None es)) = Fin (- 1)"
  by (simp_all add: options_chart_of resolve_def field_def)



section \<open>The spacing field\<close>

lemma spacing_fields:
  "entries (with_spacing x gr) = entries gr"
  "x_padding (with_spacing x gr) = x_padding gr"
  "y_padding (with_spacing x gr) = y_padding gr"
  "x_offset (with_spacing x gr) = x_offset gr"
  "y_offset (with_spacing x gr) = y_offset gr"
  by (simp_all add: with_spacing_def)

lemma spacing_options:
  "graphValuePrecision (options (with_spacing x gr)) = graphValuePrecision (options gr)"
  "graphSegments_X (options (with_spacing x gr)) = graphSegments_X (options gr)"
  "graphSegments_Y (options (with_spacing x gr)) = graphSegments_Y (options gr)"
  "backgroundColor (options (with_spacing x gr)) = backgroundColor (options gr)"
  by (simp_all add: with_spacing_def)

lemma spacing_bar_parts:
  "bar_rect (with_spacing x gr) = bar_rect gr"
  "bar_text (with_spacing x gr) = bar_text gr"
  by (rule ext, rule ext, rule ext,
      simp add: bar_rect_def bar_fillRect_def bar_X_def bar_Y_def X_SEGMENTS_def
        maxY_segment_def Y_SEGMENTS_def with_spacing_def,
      (rule ext)+,
      simp add: bar_text_def bar_X_def bar_Y_def X_SEGMENTS_def
        maxY_segment_def Y_SEGMENTS_def with_spacing_def Let_def split: value_label.split)

lemma spacing_ytick_parts:
  "ytick_mark (with_spacing x gr) = ytick_mark gr"
  "ytick_text (with_spacing x gr) = ytick_text gr"
  "ytick_yVal (with_spacing x gr) = ytick_yVal gr"
  by ((rule ext)+,
      simp add: ytick_mark_def ytick_text_def ytick_yVal_def ytick_Y_def
        maxY_segment_def Y_SEGMENTS_def with_spacing_def)+

lemma spacing_xtick_parts:
  "xtick_mark (with_spacing x gr) = xtick_mark gr"
  "xtick_text (with_spacing x gr) = xtick_text gr"
  by ((rule ext)+,
      simp add: xtick_mark_def xtick_text_def bar_X_def X_SEGMENTS_def with_spacing_def)+

lemma spacing_bar_body: "bar_body (with_spacing x gr) = bar_body gr"
  by (rule ext)+
     (simp add: bar_body_def spacing_bar_parts spacing_fields spacing_options split: sum.split)

lemma spacing_ytick_body: "ytick_body (with_spacing x gr) = ytick_body gr"
  by (rule ext)+
     (simp add: ytick_body_def spacing_ytick_parts spacing_options split: sum.split)

lemma spacing_xtick_body: "xtick_body (with_spacing x gr) = xtick_body gr"
  by (rule ext)+
     (simp add: xtick_body_def spacing_xtick_parts spacing_fields spacing_options Let_def
       split: sum.split)

lemma spacing_outline: "outline_calls (with_spacing x gr) = outline_calls gr"
  by (rule ext)+ (simp add: outline_calls_def with_spacing_def)

lemma spacing_derive: "derive_yMax (with_spacing x gr) = with_spacing x (derive_yMax gr)"
  by (simp add: derive_yMax_def with_spacing_def)

lemma spacing_draw_bars: "draw_bars (with_spacing x gr) cv = draw_bars gr cv"
  by (simp add: draw_bars_def spacing_bar_body) (simp add: with_spacing_def)

lemma spacing_draw_graph_segments:
  "draw_graph_segments (with_spacing x gr) cv =
     map_option (map_outcome (apfst (with_spacing x))) (draw_graph_segments gr cv)"
proof -
  have o: "graphSegments_Y (options (with_spacing x gr)) = graphSegments_Y (options gr)"
    "graphSegments_X (options (with_spacing x gr)) = graphSegments_X (options gr)"
    by (simp_all add: with_spacing_def)
  show ?thesis
    unfolding draw_graph_segments_def Let_def spacing_derive spacing_ytick_body spacing_xtick_body o
    by (simp split: option.split outcome.split)
qed

lemma spacing_draw:
  "draw (with_spacing x gr) cv = map_option (map_outcome (apfst (with_spacing x))) (draw gr cv)"
proof -
  have o: "backgroundColor (options (with_spacing x gr)) = backgroundColor (options gr)"
    by (simp add: with_spacing_def)
  show ?thesis
    unfolding draw_def Let_def o spacing_draw_bars draw_graph_outline_def spacing_outline
    by (simp add: spacing_draw_graph_segments split: option.split outcome.split)
qed

lemma spacing_add: "add e (with_spacing x gr) = with_spacing x (add e gr)"
  by (simp add: add_def with_spacing_def)

lemma spacing_run:
  "run cs (with_spacing x gr, cv) =
     map_option (map_outcome (apfst (with_spacing x))) (run cs (gr, cv))"
proof (induction cs arbitrary: gr cv)
  case Nil
  show ?case by simp
next
  case (Cons c cs)
  show ?case
  proof (cases c)
    case (Add e)
    then show ?thesis using Cons by (simp add: spacing_add)
  next
    case Draw
    show ?thesis
    proof (cases "draw gr cv")
      case None
      then show ?thesis using Draw by (simp add: spacing_draw)
    next
      case (Some out)
      then show ?thesis using Draw Cons
        by (cases out) (auto simp: spacing_draw)
    qed
  qed
qed

lemma spacing_constructor:
  "constructor (Some (c\<lparr>p_bar_spacing := a\<rparr>)) cv =
     (with_spacing (dflt a (Fin 5)) (fst (constructor (Some c) cv)), snd (constructor (Some c) cv))"
  by (simp add: constructor_def Let_def resolve_def field_def with_spacing_def)

text \<open>
  C9. Two charts whose configurations differ in \<open>bar_spacing\<close> only, constructed on the
  same surface and given the same sequence of \<open>add\<close> and \<open>draw\<close> calls, leave the same
  calls on the surface, with the same coordinates, rectangles and texts, and end the
  same way (returning, raising, or not ending).
\<close>

theorem C9_bar_spacing_unused:
  "map_option (map_outcome snd) (run cs (constructor (Some (c\<lparr>p_bar_spacing := a\<rparr>)) cv)) =
   map_option (map_outcome snd) (run cs (constructor (Some (c\<lparr>p_bar_spacing := b\<rparr>)) cv))"
  by (simp add: spacing_constructor spacing_run option.map_comp outcome.map_comp comp_def)

section \<open>Deriving and freezing the axis maximum\<close>

lemma foldl_jmax_Fin: "foldl jmax (Fin a) (map Fin xs) = Fin (fold max xs a)"
proof (induction xs arbitrary: a)
  case Nil
  show ?case by simp
next
  case (Cons x xs)
  have "jmax (Fin a) (Fin x) = Fin (max a x)" by (simp add: max_def)
  then show ?case using Cons [of "max a x"] by (simp add: max.commute)
qed

lemma max_of_finite: "xs \<noteq> [] \<Longrightarrow> max_of (map Fin xs) = Fin (Max (set xs))"
proof (cases xs)
  case Nil
  assume "xs \<noteq> []"
  with Nil show ?thesis by simp
next
  case (Cons x ys)
  have "max_of (map Fin xs) = Fin (fold max ys x)"
    using Cons by (simp add: max_of_def foldl_jmax_Fin)
  also have "fold max ys x = Max (set (x # ys))"
    by (rule Max.set_eq_fold [symmetric])
  finally show ?thesis using Cons by simp
qed

lemma derive_yMax_set: "yMax (options gr) \<noteq> Fin (- 1) \<Longrightarrow> derive_yMax gr = gr"
  by (simp add: derive_yMax_def)

lemma draw_graph_segments_graph:
  "draw_graph_segments gr cv = Some out \<Longrightarrow> fst (state_of out) = derive_yMax gr"
  by (auto simp: draw_graph_segments_def Let_def split: option.splits outcome.splits)

lemma draw_graph:
  "draw gr cv = Some out \<Longrightarrow> fst (state_of out) = gr \<or> fst (state_of out) = derive_yMax gr"
  by (auto simp: draw_def Let_def split: option.splits outcome.splits
      dest: draw_graph_segments_graph)

lemma yMax_frozen:
  assumes "yMax (options gr) \<noteq> Fin (- 1)"
    and "run cs (gr, cv) = Some out"
  shows "yMax (options (fst (state_of out))) = yMax (options gr)"
  using assms
proof (induction cs arbitrary: gr cv)
  case Nil
  then show ?case by auto
next
  case (Cons c cs)
  show ?case
  proof (cases c)
    case (Add e)
    have o: "yMax (options (add e gr)) = yMax (options gr)" by (simp add: add_def)
    have r: "run cs (add e gr, cv) = Some out" using Cons.prems(2) Add by simp
    have "yMax (options (add e gr)) \<noteq> Fin (- 1)" using Cons.prems(1) o by simp
    from Cons.IH [OF this r] show ?thesis using o by simp
  next
    case Draw
    show ?thesis
    proof (cases "draw gr cv")
      case None
      then show ?thesis using Cons.prems Draw by simp
    next
      case (Some r)
      have g: "fst (state_of r) = gr"
        using draw_graph [OF Some] derive_yMax_set [OF Cons.prems(1)] by auto
      show ?thesis
      proof (cases r)
        case (Returns st)
        then have "run cs (gr, snd st) = Some out"
          using Cons.prems(2) Draw Some g by (cases st) auto
        then show ?thesis using Cons.IH [OF Cons.prems(1)] by blast
      next
        case (Throws e st)
        then show ?thesis using Cons.prems(2) Draw Some g by auto
      qed
    qed
  qed
qed

text \<open>
  C1 (as amended). If \<open>yMax\<close> is the sentinel \<open>-1\<close> when \<open>draw\<close> runs, and \<open>draw\<close>
  returns, then \<open>yMax\<close> is set to the maximum value among the entries present at that
  moment. If that maximum is not \<open>-1\<close> itself, no later sequence of \<open>add\<close> and \<open>draw\<close>
  calls changes it.
\<close>

theorem C1_yMax_derived_then_frozen:
  assumes "yMax (options gr) = Fin (- 1)"
    and "graphSegments_X (options gr) \<noteq> PInf"
    and "graphSegments_Y (options gr) \<noteq> PInf"
    and "precision_ok (graphValuePrecision (options gr))"
  shows "\<exists>cv'. draw gr cv = Some (Returns (derive_yMax gr, cv'))
     \<and> yMax (options (derive_yMax gr)) = max_of (map val (entries gr))
     \<and> (max_of (map val (entries gr)) \<noteq> Fin (- 1) \<longrightarrow>
          (\<forall>cs out. run cs (derive_yMax gr, cv') = Some out \<longrightarrow>
             yMax (options (fst (state_of out))) = max_of (map val (entries gr))))"
proof -
  have y: "yMax (options (derive_yMax gr)) = max_of (map val (entries gr))"
    by (rule yMax_derive_unset [OF assms(1)])
  have "\<And>cv' cs out. max_of (map val (entries gr)) \<noteq> Fin (- 1) \<Longrightarrow>
      run cs (derive_yMax gr, cv') = Some out \<Longrightarrow>
      yMax (options (fst (state_of out))) = max_of (map val (entries gr))"
    using yMax_frozen [of "derive_yMax gr"] y by simp
  then show ?thesis
    using draw_returns [OF assms(2-4), of cv] y by blast
qed


lemma run_draw:
  assumes "graphSegments_X (options gr) \<noteq> PInf"
    and "graphSegments_Y (options gr) \<noteq> PInf"
    and "precision_ok (graphValuePrecision (options gr))"
  shows "run (Draw # cs) (gr, cv) = run cs (derive_yMax gr, emit (frame gr (WIDTH cv) (HEIGHT cv)) cv)"
  by (simp add: draw_returns [OF assms])

lemma options_add: "options (add e gr) = options gr"
  by (simp add: add_def)

lemma yMax_after_done: "yMax_after (run [] st) = Some (yMax (options (fst st)))"
  by (simp add: yMax_after_def)

theorem C1_not_frozen_counterexample:
  "max_of (map val (entries (chart_of None [bar (Fin (- 1)) None Null]))) = Fin (- 1)
   \<and> yMax_after (run [Draw] (chart_of None [bar (Fin (- 1)) None Null], surface_of None)) =
       Some (Fin (- 1))
   \<and> yMax_after (run [Draw, Add (bar (Fin 5) None Null), Draw]
        (chart_of None [bar (Fin (- 1)) None Null], surface_of None)) = Some (Fin 5)"
proof -
  let ?G = "chart_of None [bar (Fin (- 1)) None Null]"
  let ?e = "bar (Fin 5) None Null"
  have m: "max_of (map val (entries ?G)) = Fin (- 1)"
    by (simp add: entries_chart_of bar_def max_of_def)
  have g1: "graphSegments_X (options ?G) \<noteq> PInf" "graphSegments_Y (options ?G) \<noteq> PInf"
    "precision_ok (graphValuePrecision (options ?G))"
    by (simp_all add: default_options precision_two)
  have y1: "yMax (options (derive_yMax ?G)) = Fin (- 1)"
    using yMax_derive_unset [of ?G] m by (simp add: default_options)
  let ?G2 = "add ?e (derive_yMax ?G)"
  have g2: "graphSegments_X (options ?G2) \<noteq> PInf" "graphSegments_Y (options ?G2) \<noteq> PInf"
    "precision_ok (graphValuePrecision (options ?G2))"
    using g1 by (simp_all add: options_add options_derive)
  have u2: "yMax (options ?G2) = Fin (- 1)" using y1 by (simp add: options_add)
  have e2: "entries ?G2 = [bar (Fin (- 1)) None Null, ?e]"
    by (simp add: add_def options_derive entries_chart_of)
  have m2: "max_of (map val (entries ?G2)) = Fin 5"
    unfolding e2 by (simp add: bar_def max_of_def)
  have y2: "yMax (options (derive_yMax ?G2)) = Fin 5"
    using yMax_derive_unset [OF u2] m2 by simp
  have a: "yMax_after (run [Draw] (?G, surface_of None)) = Some (Fin (- 1))"
    by (simp only: run_draw [OF g1] yMax_after_done fst_conv y1)
  have b: "yMax_after (run [Draw, Add ?e, Draw] (?G, surface_of None)) = Some (Fin 5)"
    by (simp only: run_draw [OF g1] run.simps(2) fst_conv snd_conv run_draw [OF g2]
        yMax_after_done y2)
  from m a b show ?thesis by (intro conjI)
qed

theorem C1_yMax_derived_then_frozen_witness:
  "yMax (options (chart_of None [bar (Fin 50) None Null, bar (Fin 100) None Null])) = Fin (- 1)
   \<and> graphSegments_X (options (chart_of None [bar (Fin 50) None Null, bar (Fin 100) None Null])) \<noteq> PInf
   \<and> graphSegments_Y (options (chart_of None [bar (Fin 50) None Null, bar (Fin 100) None Null])) \<noteq> PInf
   \<and> precision_ok (graphValuePrecision
        (options (chart_of None [bar (Fin 50) None Null, bar (Fin 100) None Null])))
   \<and> max_of (map val (entries (chart_of None [bar (Fin 50) None Null, bar (Fin 100) None Null])))
        \<noteq> Fin (- 1)
   \<and> yMax_after (run [Draw]
        (chart_of None [bar (Fin 50) None Null, bar (Fin 100) None Null], surface_of None)) =
       Some (Fin 100)
   \<and> yMax_after (run [Draw, Add (bar (Fin 500) None Null), Draw]
        (chart_of None [bar (Fin 50) None Null, bar (Fin 100) None Null], surface_of None)) =
       Some (Fin 100)"
proof -
  let ?G = "chart_of None [bar (Fin 50) None Null, bar (Fin 100) None Null]"
  let ?e = "bar (Fin 500) None Null"
  let ?S = "surface_of None"
  have h1: "yMax (options ?G) = Fin (- 1)" by (simp add: default_options)
  have h2: "graphSegments_X (options ?G) \<noteq> PInf" by (simp add: default_options)
  have h3: "graphSegments_Y (options ?G) \<noteq> PInf" by (simp add: default_options)
  have h4: "precision_ok (graphValuePrecision (options ?G))"
    by (simp add: default_options precision_two)
  have m: "max_of (map val (entries ?G)) = Fin 100"
    by (simp add: entries_chart_of bar_def max_of_def)
  obtain cv' where d: "draw ?G ?S = Some (Returns (derive_yMax ?G, cv'))"
    and y: "yMax (options (derive_yMax ?G)) = Fin 100"
    and f: "\<And>cs out. run cs (derive_yMax ?G, cv') = Some out \<Longrightarrow>
        yMax (options (fst (state_of out))) = Fin 100"
    using C1_yMax_derived_then_frozen [OF h1 h2 h3 h4, of ?S] unfolding m by auto
  have a: "yMax_after (run [Draw] (?G, ?S)) = Some (Fin 100)"
    using d y by (simp add: yMax_after_def)
  let ?G2 = "add ?e (derive_yMax ?G)"
  have g2: "graphSegments_X (options ?G2) \<noteq> PInf" "graphSegments_Y (options ?G2) \<noteq> PInf"
    "precision_ok (graphValuePrecision (options ?G2))"
    using h2 h3 h4 by (simp_all add: options_add options_derive)
  have r: "run [Add ?e, Draw] (derive_yMax ?G, cv') =
      Some (Returns (derive_yMax ?G2, emit (frame ?G2 (WIDTH cv') (HEIGHT cv')) cv'))"
    by (simp add: draw_returns [OF g2])
  have "yMax (options (derive_yMax ?G2)) = Fin 100"
    using f [OF r] by simp
  then have b: "yMax_after (run [Draw, Add ?e, Draw] (?G, ?S)) = Some (Fin 100)"
    using d r by (simp add: yMax_after_def)
  from h1 h2 h3 h4 m a b show ?thesis by simp
qed

section \<open>The texts of a frame\<close>

lemma texts_append: "texts (xs @ ys) = texts xs @ texts ys"
  by (simp add: texts_def)

lemma texts_concat: "texts (concat (map f is)) = concat (map (\<lambda>i. texts (f i)) is)"
  by (induction "is") (simp_all add: texts_append, simp add: texts_def)

lemma texts_xtick_calls:
  "texts (xtick_calls gr w h i) =
     (if label_shown (entry_at (entries gr) i)
      then [projr (xtick_str (entry_at (entries gr) i) (graphValuePrecision (options gr)) i)]
      else [])"
  by (simp add: texts_def xtick_calls_def xtick_mark_def xtick_text_def)

lemma xtick_str_no_entry: "xtick_str None p i = Inr (numToString (Fin (real i)))"
  by (simp add: xtick_str_def xtick_operand_def)

lemma xtick_str_no_label:
  "label e = None \<Longrightarrow> xtick_str (Some e) p i = Inr (numToString (Fin (real i)))"
  by (simp add: xtick_str_def xtick_operand_def)

lemma xtick_str_verbatim:
  "label e = Some l \<Longrightarrow> l \<noteq> [] \<Longrightarrow> \<not> truthy (parseFloat l) \<Longrightarrow> xtick_str (Some e) p i = Inr l"
  by (simp add: xtick_str_def xtick_operand_def entryFloatVal_def)

lemma texts_bar_calls:
  "texts (bar_calls gr w h i) =
     (case valueLabel (entries gr ! i) of
        Null \<Rightarrow> []
      | Undefined \<Rightarrow> [projr (bar_val (val (entries gr ! i)) (graphValuePrecision (options gr)))]
      | Str t \<Rightarrow> [t])"
  by (simp add: texts_def bar_calls_def no_text_in_bar_rect bar_text_def Let_def
      split: value_label.split)

lemma texts_outline:
  "texts (outline_calls gr w h) =
     (if xAxisText (options gr) \<noteq> [] then [xAxisText (options gr)] else []) @
     (if yAxisText (options gr) \<noteq> [] then [yAxisText (options gr)] else [])"
  by (simp add: texts_def outline_calls_def)

lemma texts_ytick_calls:
  "texts (ytick_calls gr h i) =
     [projr (ytick_str (ytick_yVal gr h i) (graphValuePrecision (options gr)))]"
  by (simp add: texts_def ytick_calls_def ytick_mark_def ytick_text_def)

lemma texts_frame:
  "texts (frame gr w h) =
     texts (bars_part gr w h) @ texts (outline_calls gr w h) @
     texts (yticks_part (derive_yMax gr) h) @ texts (xticks_part (derive_yMax gr) w h)"
proof -
  have h: "texts [background_call gr, Save] = []" "texts [Restore] = []"
    by (simp_all add: texts_def background_call_def Let_def)
  show ?thesis by (simp only: frame_def texts_append h append_Nil)
qed

lemma five_slots:
  "graphSegments_X (options (chart_of (Some five_slots_config) es)) = Fin 5"
  "graphSegments_Y (options (chart_of (Some five_slots_config) es)) = Fin 1"
  "graphValuePrecision (options (chart_of (Some five_slots_config) es)) = Fin 2"
  "xAxisText (options (chart_of (Some five_slots_config) es)) = []"
  "yAxisText (options (chart_of (Some five_slots_config) es)) = []"
  "calls (surface_of (Some five_slots_config)) = []"
  by (simp_all add: options_chart_of resolve_def field_def dflt_def five_slots_config_def
      no_options_def surface_of_def constructor_def Let_def init_def blank_surface_def)

lemma bar_fields:
  "val (bar v l t) = v" "label (bar v l t) = l" "valueLabel (bar v l t) = t"
  by (simp_all add: bar_def)

lemma upt_3: "[0..<3] = [0, 1, 2]"
  by (simp add: upt_conv_Cons)

lemma upt_4: "[0..<4] = [0, 1, 2, 3]"
  by (simp add: upt_conv_Cons)

lemma parseFloat_letters:
  "parseFloat ''a'' = NaN" "parseFloat ''b'' = NaN" "parseFloat ''c'' = NaN"
  by (simp_all add: parseFloat_def white_space_def parseUnsigned_def isPrefix_def isDigit_def)

lemma numToString_3: "numToString (Fin 3) = ''3''"
  by (simp add: intToString_def trunc_def shortest_def pick_def round_int_def bits.simps
      dec.simps digit_char_def)

section \<open>The formatting rule\<close>




lemma dec_nonempty: "dec n \<noteq> []"
  by (subst dec.simps) simp







lemma intToString_nonempty: "intToString k \<noteq> []"
  by (simp add: intToString_def sci_def Let_def dec_nonempty)

lemma numToString_nonempty: "numToString x \<noteq> []"
  by (cases x) (simp_all add: intToString_nonempty)








section \<open>The value text of a bar\<close>

lemma bar_val_integral: "jmod y (Fin 1) = Fin 0 \<Longrightarrow> bar_val y p = Inr (numToString y)"
  by (simp add: bar_val_def)

lemma bar_val_fractional: "jmod y (Fin 1) \<noteq> Fin 0 \<Longrightarrow> bar_val y p = toFixed y p"
  by (simp add: bar_val_def)

lemma bar_val_returns:
  assumes "jmod y (Fin 1) = Fin 0 \<or> precision_ok p"
  shows "bar_val y p = Inr (projr (bar_val y p))"
proof (cases "jmod y (Fin 1) = Fin 0")
  case True
  then show ?thesis by (simp add: bar_val_integral)
next
  case False
  then have "precision_ok p" using assms by simp
  then show ?thesis by (rule bar_val_ok)
qed

lemma bar_body_next:
  assumes "i < length (entries gr)"
    and "jmod (val (entries gr ! i)) (Fin 1) = Fin 0 \<or> precision_ok (graphValuePrecision (options gr))"
  shows "bar_body gr w h i cv = Next (emit (bar_calls gr w h i) cv)"
  using bar_val_returns [OF assms(2)] assms(1)
  by (auto simp: bar_body_def bar_calls_def split: sum.splits)

lemma texts_bar_rect: "texts (bar_rect gr w h i) = []"
  by (simp add: texts_def no_text_in_bar_rect)

lemma bar_body_null:
  assumes "i < length (entries gr)" and "valueLabel (entries gr ! i) = Null"
  shows "texts (new_calls cv (step_state (bar_body gr w h i cv))) = []"
  using assms
  by (simp add: bar_body_def new_calls_emit texts_append texts_bar_rect bar_text_def Let_def
      split: sum.split)

text \<open>
  C7 (as amended). For a slot that holds an entry: with \<open>valueLabel\<close> null the body of
  the bar loop paints no text, whatever else happens. When the value text of the bar
  can be computed, which is so when the value is an integer or the digit count is one
  that \<open>toFixed\<close> accepts, the body goes on to the next bar, and with \<open>valueLabel\<close>
  undefined it paints the value text, \<open>toString\<close> of an integral value and
  \<open>toFixed\<close> of any other, and with any other string it paints that string unchanged.
\<close>

theorem C7_value_label:
  assumes "i < length (entries gr)"
  shows "(valueLabel (entries gr ! i) = Null \<longrightarrow>
         texts (new_calls cv (step_state (bar_body gr w h i cv))) = [])
    \<and> (jmod (val (entries gr ! i)) (Fin 1) = Fin 0
         \<or> precision_ok (graphValuePrecision (options gr)) \<longrightarrow>
       (\<exists>v cs.
          (jmod (val (entries gr ! i)) (Fin 1) = Fin 0 \<longrightarrow> v = numToString (val (entries gr ! i)))
        \<and> (jmod (val (entries gr ! i)) (Fin 1) \<noteq> Fin 0 \<longrightarrow>
             toFixed (val (entries gr ! i)) (graphValuePrecision (options gr)) = Inr v)
        \<and> bar_body gr w h i cv = Next (emit cs cv)
        \<and> texts cs =
            (case valueLabel (entries gr ! i) of Null \<Rightarrow> [] | Undefined \<Rightarrow> [v] | Str t \<Rightarrow> [t])))"
proof (intro conjI impI)
  assume "valueLabel (entries gr ! i) = Null"
  then show "texts (new_calls cv (step_state (bar_body gr w h i cv))) = []"
    using assms by (simp add: bar_body_null)
next
  let ?y = "val (entries gr ! i)" and ?p = "graphValuePrecision (options gr)"
  let ?v = "projr (bar_val ?y ?p)"
  assume ok: "jmod ?y (Fin 1) = Fin 0 \<or> precision_ok ?p"
  have v: "bar_val ?y ?p = Inr ?v" by (rule bar_val_returns [OF ok])
  have v1: "jmod ?y (Fin 1) = Fin 0 \<longrightarrow> ?v = numToString ?y"
    by (simp add: bar_val_integral)
  have v2: "jmod ?y (Fin 1) \<noteq> Fin 0 \<longrightarrow> toFixed ?y ?p = Inr ?v"
  proof
    assume "jmod ?y (Fin 1) \<noteq> Fin 0"
    then have "bar_val ?y ?p = toFixed ?y ?p" by (rule bar_val_fractional)
    with v show "toFixed ?y ?p = Inr ?v" by simp
  qed
  have b: "bar_body gr w h i cv = Next (emit (bar_calls gr w h i) cv)"
    by (rule bar_body_next [OF assms ok])
  have t: "texts (bar_calls gr w h i) =
      (case valueLabel (entries gr ! i) of Null \<Rightarrow> [] | Undefined \<Rightarrow> [?v] | Str t \<Rightarrow> [t])"
    by (rule texts_bar_calls)
  from v1 v2 b t
  show "\<exists>v cs.
          (jmod ?y (Fin 1) = Fin 0 \<longrightarrow> v = numToString ?y)
        \<and> (jmod ?y (Fin 1) \<noteq> Fin 0 \<longrightarrow> toFixed ?y ?p = Inr v)
        \<and> bar_body gr w h i cv = Next (emit cs cv)
        \<and> texts cs =
            (case valueLabel (entries gr ! i) of Null \<Rightarrow> [] | Undefined \<Rightarrow> [v] | Str t \<Rightarrow> [t])"
    by blast
qed


lemma toFixed_five_halves: "toFixed (Fin (5 / 2)) (Fin 2) = Inr ''2.50''"
  by (simp add: toFixed_def fixed_digits_def trunc_def dec.simps digit_char_def Let_def)

lemma jmod_five_halves: "jmod (Fin (5 / 2)) (Fin 1) \<noteq> Fin 0"
  by (simp add: trunc_def)

theorem C7_value_label_witness:
  "1 < length (entries (chart_of None
       [bar (Fin 5) None Null, bar (Fin (5 / 2)) None Undefined, bar (Fin 1) None (Str ''foo'')]))
   \<and> precision_ok (graphValuePrecision (options (chart_of None
       [bar (Fin 5) None Null, bar (Fin (5 / 2)) None Undefined, bar (Fin 1) None (Str ''foo'')])))
   \<and> texts (new_calls blank_surface (step_state (bar_body (chart_of None
         [bar (Fin 5) None Null, bar (Fin (5 / 2)) None Undefined, bar (Fin 1) None (Str ''foo'')])
       (Fin 720) (Fin 480) 0 blank_surface))) = []
   \<and> (\<exists>cs. bar_body (chart_of None
            [bar (Fin 5) None Null, bar (Fin (5 / 2)) None Undefined, bar (Fin 1) None (Str ''foo'')])
          (Fin 720) (Fin 480) 1 blank_surface = Next (emit cs blank_surface)
        \<and> texts cs = [''2.50''])
   \<and> (\<exists>cs. bar_body (chart_of None
            [bar (Fin 5) None Null, bar (Fin (5 / 2)) None Undefined, bar (Fin 1) None (Str ''foo'')])
          (Fin 720) (Fin 480) 2 blank_surface = Next (emit cs blank_surface)
        \<and> texts cs = [''foo''])"
proof -
  let ?G = "chart_of None
       [bar (Fin 5) None Null, bar (Fin (5 / 2)) None Undefined, bar (Fin 1) None (Str ''foo'')]"
  have e: "entries ?G ! 0 = bar (Fin 5) None Null" "entries ?G ! 1 = bar (Fin (5 / 2)) None Undefined"
    "entries ?G ! 2 = bar (Fin 1) None (Str ''foo'')"
    by (simp_all add: entries_chart_of)
  have l: "0 < length (entries ?G)" "1 < length (entries ?G)" "2 < length (entries ?G)"
    by (simp_all add: entries_chart_of)
  have p: "graphValuePrecision (options ?G) = Fin 2" by (simp add: default_options)
  have ok: "precision_ok (graphValuePrecision (options ?G))" by (simp add: p precision_two)
  have w0: "texts (new_calls blank_surface (step_state (bar_body ?G (Fin 720) (Fin 480) 0 blank_surface))) = []"
    using C7_value_label [OF l(1), of blank_surface "Fin 720" "Fin 480"]
    by (simp add: e bar_fields)
  obtain v cs where v: "jmod (val (entries ?G ! 1)) (Fin 1) \<noteq> Fin 0 \<longrightarrow>
      toFixed (val (entries ?G ! 1)) (graphValuePrecision (options ?G)) = Inr v"
    and b: "bar_body ?G (Fin 720) (Fin 480) 1 blank_surface = Next (emit cs blank_surface)"
    and t: "texts cs = (case valueLabel (entries ?G ! 1) of Null \<Rightarrow> [] | Undefined \<Rightarrow> [v] | Str t \<Rightarrow> [t])"
    using C7_value_label [OF l(2), of blank_surface "Fin 720" "Fin 480"] ok by blast
  have "toFixed (Fin (5 / 2)) (Fin 2) = Inr v"
    using v jmod_five_halves unfolding e p bar_fields by blast
  then have "v = ''2.50''" by (simp add: toFixed_five_halves)
  moreover have "texts cs = [v]" using t unfolding e bar_fields by simp
  ultimately have w1: "\<exists>cs. bar_body ?G (Fin 720) (Fin 480) 1 blank_surface = Next (emit cs blank_surface)
        \<and> texts cs = [''2.50'']"
    using b by blast
  obtain v' cs' where
    b': "bar_body ?G (Fin 720) (Fin 480) 2 blank_surface = Next (emit cs' blank_surface)"
    and t': "texts cs' = (case valueLabel (entries ?G ! 2) of Null \<Rightarrow> [] | Undefined \<Rightarrow> [v'] | Str t \<Rightarrow> [t])"
    using C7_value_label [OF l(3), of blank_surface "Fin 720" "Fin 480"] ok by blast
  have "texts cs' = [''foo'']" using t' unfolding e bar_fields by simp
  then have w2: "\<exists>cs. bar_body ?G (Fin 720) (Fin 480) 2 blank_surface = Next (emit cs blank_surface)
        \<and> texts cs = [''foo'']"
    using b' by blast
  from l(2) ok w0 w1 w2 show ?thesis by (intro conjI)
qed

lemma wide_options:
  "graphSegments_X (options (chart_of (Some wide_config) es)) = Fin 10"
  "graphSegments_Y (options (chart_of (Some wide_config) es)) = Fin 10"
  "graphValuePrecision (options (chart_of (Some wide_config) es)) = Fin 101"
  "calls (surface_of (Some wide_config)) = []"
  by (simp_all add: options_chart_of resolve_def field_def dflt_def wide_config_def
      no_options_def surface_of_def constructor_def Let_def init_def blank_surface_def)

lemma bar_val_refused: "bar_val (Fin (5 / 2)) (Fin 101) = Inl RangeError"
  by (simp add: bar_val_def trunc_def toFixed_def)

lemma bar_body_raises:
  assumes "i < length (entries gr)"
    and "bar_val (val (entries gr ! i)) (graphValuePrecision (options gr)) = Inl e"
  shows "bar_body gr w h i cv = Raise e (emit (bar_rect gr w h i) cv)"
  using assms by (simp add: bar_body_def)

lemma rects_bar_rect: "rects (bar_rect gr w h i) = [bar_fillRect gr w h i]"
  by (simp add: rects_def bar_rect_def bar_fillRect_def Let_def)

lemma draw_bars_raises:
  assumes "draw_bars gr (emit [background_call gr] cv) = Some (Throws e cv')"
  shows "draw gr cv = Some (Throws e (gr, cv'))"
  using assms by (simp add: draw_def background_call_def Let_def)

theorem C7_text_lost_counterexample:
  "valueLabel (entries (chart_of (Some wide_config) [bar (Fin (5 / 2)) None (Str ''foo'')]) ! 0) =
     Str ''foo''
   \<and> map_option length (rects_after (draw
        (chart_of (Some wide_config) [bar (Fin (5 / 2)) None (Str ''foo'')])
        (surface_of (Some wide_config)))) = Some 1
   \<and> texts_after (draw
        (chart_of (Some wide_config) [bar (Fin (5 / 2)) None (Str ''foo'')])
        (surface_of (Some wide_config))) = Some []"
proof -
  let ?G = "chart_of (Some wide_config) [bar (Fin (5 / 2)) None (Str ''foo'')]"
  let ?S = "surface_of (Some wide_config)"
  let ?T = "emit [Save] (emit [background_call ?G] ?S)"
  have e: "entries ?G ! 0 = bar (Fin (5 / 2)) None (Str ''foo'')" "0 < length (entries ?G)"
    by (simp_all add: entries_chart_of)
  have x: "graphSegments_X (options ?G) \<noteq> PInf" by (simp add: wide_options)
  have r: "bar_body ?G w h 0 cv = Raise RangeError (emit (bar_rect ?G w h 0) cv)" for w h cv
    by (rule bar_body_raises)
       (simp_all add: entries_chart_of bar_fields wide_options bar_val_refused)
  have u: "[0..<iters (graphSegments_X (options ?G))] = 0 # [1..<10]"
    by (simp add: wide_options upt_conv_Cons)
  have "draw_bars ?G (emit [background_call ?G] ?S) =
      Some (Throws RangeError (emit (bar_rect ?G (WIDTH ?S) (HEIGHT ?S) 0) ?T))"
    by (simp add: draw_bars_def for_loop_run [OF x] u r dims_emit)
  then have d: "draw ?G ?S =
      Some (Throws RangeError (?G, emit (bar_rect ?G (WIDTH ?S) (HEIGHT ?S) 0) ?T))"
    by (rule draw_bars_raises)
  have c: "calls (emit (bar_rect ?G (WIDTH ?S) (HEIGHT ?S) 0) ?T) =
      [background_call ?G, Save] @ bar_rect ?G (WIDTH ?S) (HEIGHT ?S) 0"
    by (simp add: calls_emit wide_options)
  have h: "rects [background_call ?G, Save] = []" "texts [background_call ?G, Save] = []"
    by (simp_all add: rects_def texts_def background_call_def Let_def)
  have a1: "valueLabel (entries ?G ! 0) = Str ''foo''" by (simp add: e bar_fields)
  have a2: "map_option length (rects_after (draw ?G ?S)) = Some 1"
    unfolding d rects_after_def by (simp add: c rects_append h rects_bar_rect del: append.simps)
  have a3: "texts_after (draw ?G ?S) = Some []"
    unfolding d texts_after_def by (simp add: c texts_append h texts_bar_rect del: append.simps)
  from a1 a2 a3 show ?thesis by (intro conjI)
qed

section \<open>The number of bars painted\<close>

lemma emit_nothing: "emit [] s = s"
  by (simp add: emit_def)

lemma run_loop_no_rects:
  assumes "\<And>i s. \<exists>cs. step_state (body i s) = emit cs s \<and> rects cs = []"
  shows "\<exists>cs. state_of (run_loop body is s) = emit cs s \<and> rects cs = []"
proof (induction "is" arbitrary: s)
  case Nil
  have "state_of (run_loop body [] s) = emit [] s \<and> rects [] = []"
    by (simp add: emit_nothing rects_def)
  then show ?case by blast
next
  case (Cons i "is")
  obtain cs1 where c1: "step_state (body i s) = emit cs1 s" "rects cs1 = []"
    using assms by blast
  show ?case
  proof (cases "body i s")
    case (Next s')
    then have s': "s' = emit cs1 s" using c1(1) by simp
    obtain cs2 where c2: "state_of (run_loop body is s') = emit cs2 s'" "rects cs2 = []"
      using Cons by blast
    have "state_of (run_loop body (i # is) s) = emit (cs1 @ cs2) s"
      using Next c2(1) s' by (simp add: emit_emit)
    moreover have "rects (cs1 @ cs2) = []" using c1(2) c2(2) by (simp add: rects_append)
    ultimately show ?thesis by blast
  next
    case (Break s')
    then have "state_of (run_loop body (i # is) s) = emit cs1 s" using c1(1) by simp
    then show ?thesis using c1(2) by blast
  next
    case (Raise e s')
    then have "state_of (run_loop body (i # is) s) = emit cs1 s" using c1(1) by simp
    then show ?thesis using c1(2) by blast
  qed
qed

lemma ytick_body_no_rects:
  "\<exists>cs. step_state (ytick_body gr h i s) = emit cs s \<and> rects cs = []"
proof (cases "ytick_str (ytick_yVal gr h i) (graphValuePrecision (options gr))")
  case (Inl e)
  then have "step_state (ytick_body gr h i s) = emit (ytick_mark gr h i) s"
    by (simp add: ytick_body_def)
  moreover have "rects (ytick_mark gr h i) = []" by (simp add: rects_def ytick_mark_def)
  ultimately show ?thesis by blast
next
  case (Inr t)
  then have "step_state (ytick_body gr h i s) = emit (ytick_mark gr h i @ ytick_text gr h i t) s"
    by (simp add: ytick_body_def)
  moreover have "rects (ytick_mark gr h i @ ytick_text gr h i t) = []"
    by (simp add: rects_def ytick_mark_def ytick_text_def Let_def)
  ultimately show ?thesis by blast
qed

lemma xtick_body_no_rects:
  "\<exists>cs. step_state (xtick_body gr w h i s) = emit cs s \<and> rects cs = []"
proof -
  let ?e = "entry_at (entries gr) i"
  have m: "rects (xtick_mark gr w h i) = []" by (simp add: rects_def xtick_mark_def)
  have t: "rects (xtick_mark gr w h i @ xtick_text gr w h i t) = []" for t
    by (simp add: rects_def xtick_mark_def xtick_text_def)
  show ?thesis
  proof (cases "label_shown ?e")
    case False
    then have "step_state (xtick_body gr w h i s) = emit (xtick_mark gr w h i) s"
      by (simp add: xtick_body_def)
    then show ?thesis using m by blast
  next
    case True
    show ?thesis
    proof (cases "xtick_str ?e (graphValuePrecision (options gr)) i")
      case (Inl e)
      then have "step_state (xtick_body gr w h i s) = emit (xtick_mark gr w h i) s"
        using True by (simp add: xtick_body_def)
      then show ?thesis using m by blast
    next
      case (Inr u)
      then have "step_state (xtick_body gr w h i s) =
          emit (xtick_mark gr w h i @ xtick_text gr w h i u) s"
        using True by (simp add: xtick_body_def)
      then show ?thesis using t by blast
    qed
  qed
qed

lemma draw_graph_segments_no_rects:
  assumes "graphSegments_X (options gr) \<noteq> PInf"
    and "graphSegments_Y (options gr) \<noteq> PInf"
  shows "\<exists>out cs. draw_graph_segments gr cv = Some out
     \<and> snd (state_of out) = emit cs cv \<and> rects cs = []"
proof -
  let ?g = "derive_yMax gr"
  have y: "jsub (graphSegments_Y (options gr)) (Fin 1) \<noteq> PInf"
    using assms(2) by (simp add: jsub_one_PInf)
  have x: "jsub (graphSegments_X (options gr)) (Fin 1) \<noteq> PInf"
    using assms(1) by (simp add: jsub_one_PInf)
  let ?r1 = "run_loop (ytick_body ?g (HEIGHT cv))
      [0..<iters (jsub (graphSegments_Y (options gr)) (Fin 1))] cv"
  obtain cs1 where c1: "state_of ?r1 = emit cs1 cv" "rects cs1 = []"
    using run_loop_no_rects [of "ytick_body ?g (HEIGHT cv)", OF ytick_body_no_rects] by blast
  show ?thesis
  proof (cases ?r1)
    case (Throws e cv1)
    then have "draw_graph_segments gr cv = Some (Throws e (?g, cv1))"
      by (simp add: draw_graph_segments_def Let_def for_loop_run [OF y])
    moreover have "cv1 = emit cs1 cv" using c1(1) Throws by simp
    ultimately show ?thesis using c1(2) by auto
  next
    case (Returns cv1)
    then have cv1: "cv1 = emit cs1 cv" using c1(1) by simp
    let ?r2 = "run_loop (xtick_body ?g (WIDTH cv) (HEIGHT cv))
        [0..<iters (jsub (graphSegments_X (options gr)) (Fin 1))] cv1"
    obtain cs2 where c2: "state_of ?r2 = emit cs2 cv1" "rects cs2 = []"
      using run_loop_no_rects [of "xtick_body ?g (WIDTH cv) (HEIGHT cv)", OF xtick_body_no_rects]
      by blast
    have s2: "state_of ?r2 = emit (cs1 @ cs2) cv" using c2(1) cv1 by (simp add: emit_emit)
    have r12: "rects (cs1 @ cs2) = []" using c1(2) c2(2) by (simp add: rects_append)
    have d: "draw_graph_segments gr cv =
        Some (case ?r2 of Returns cv2 \<Rightarrow> Returns (?g, cv2) | Throws e cv2 \<Rightarrow> Throws e (?g, cv2))"
      using Returns
      by (simp add: draw_graph_segments_def Let_def for_loop_run [OF y] for_loop_run [OF x]
          split: outcome.split)
    show ?thesis
    proof (cases ?r2)
      case (Returns cv2)
      then show ?thesis using d s2 r12 by auto
    next
      case (Throws e cv2)
      then show ?thesis using d s2 r12 by auto
    qed
  qed
qed

lemma draw_bars_no_raise:
  assumes "graphSegments_X (options gr) \<noteq> PInf"
    and "\<forall>i<min (iters (graphSegments_X (options gr))) (length (entries gr)).
           jmod (val (entries gr ! i)) (Fin 1) = Fin 0
           \<or> precision_ok (graphValuePrecision (options gr))"
  shows "draw_bars gr cv = Some (Returns (emit ([Save] @ bars_part gr (WIDTH cv) (HEIGHT cv) @ [Restore]) cv))"
proof -
  have "run_loop (bar_body gr (WIDTH cv) (HEIGHT cv)) [0..<iters (graphSegments_X (options gr))] (emit [Save] cv)
      = Returns (emit (bars_part gr (WIDTH cv) (HEIGHT cv)) (emit [Save] cv))"
    unfolding bars_part_def
  proof (rule run_loop_break)
    fix i s
    assume "i < iters (graphSegments_X (options gr))" and l: "i < length (entries gr)"
    then have "jmod (val (entries gr ! i)) (Fin 1) = Fin 0
           \<or> precision_ok (graphValuePrecision (options gr))"
      using assms(2) by simp
    then show "bar_body gr (WIDTH cv) (HEIGHT cv) i s = Next (emit (bar_calls gr (WIDTH cv) (HEIGHT cv) i) s)"
      by (rule bar_body_next [OF l])
  next
    fix i s
    assume "length (entries gr) \<le> i"
    then show "bar_body gr (WIDTH cv) (HEIGHT cv) i s = Break s" by (simp add: bar_body_def)
  qed
  then show ?thesis
    by (simp add: draw_bars_def for_loop_run [OF assms(1)] dims_emit emit_emit)
qed

lemma rects_bars_part:
  "rects (bars_part gr w h) =
     map (bar_fillRect gr w h) [0..<min (iters (graphSegments_X (options gr))) (length (entries gr))]"
  unfolding bars_part_def by (rule rects_concat_one) (rule rects_bar_calls)

text \<open>
  C4 (as amended). Let \<open>graphSegments_X\<close> and \<open>graphSegments_Y\<close> be other than
  \<open>Infinity\<close>, and let no bar that is to be painted have a value text that raises: its
  value is an integer, or the digit count is one that \<open>toFixed\<close> accepts. Then \<open>draw\<close>
  ends, and the rectangles it has painted are exactly those of the entries at the
  indices \<open>i < graphSegments_X\<close>, \<open>i < entries.length\<close>, one for each, in order; for
  \<open>graphSegments_X\<close> a count \<open>n\<close> these are \<open>min n (length entries)\<close> rectangles.
\<close>

theorem C4_bars_painted:
  assumes "graphSegments_X (options gr) \<noteq> PInf"
    and "graphSegments_Y (options gr) \<noteq> PInf"
    and "\<forall>i<min (iters (graphSegments_X (options gr))) (length (entries gr)).
           jmod (val (entries gr ! i)) (Fin 1) = Fin 0
           \<or> precision_ok (graphValuePrecision (options gr))"
  shows "\<exists>out. draw gr cv = Some out
     \<and> rects (new_calls cv (snd (state_of out))) =
         map (\<lambda>i. FillRect (bar_X gr (WIDTH cv) i)
                 (jsub (jsub (HEIGHT cv) (y_offset gr)) (bar_Y gr (HEIGHT cv) (entries gr ! i)))
                 (bar_width (options gr))
                 (bar_Y gr (HEIGHT cv) (entries gr ! i)))
           [0..<min (iters (graphSegments_X (options gr))) (length (entries gr))]
     \<and> (\<forall>n. graphSegments_X (options gr) = Fin (real n) \<longrightarrow>
           length (rects (new_calls cv (snd (state_of out)))) = min n (length (entries gr)))"
proof -
  let ?w = "WIDTH cv" and ?h = "HEIGHT cv"
  let ?k = "min (iters (graphSegments_X (options gr))) (length (entries gr))"
  let ?pre = "[background_call gr, Save] @ bars_part gr ?w ?h @ [Restore] @ outline_calls gr ?w ?h"
  have b: "draw_bars gr (emit [background_call gr] cv) =
      Some (Returns (emit ([Save] @ bars_part gr ?w ?h @ [Restore]) (emit [background_call gr] cv)))"
    using draw_bars_no_raise [OF assms(1) assms(3), of "emit [background_call gr] cv"]
    by (simp add: dims_emit)
  have d: "draw gr cv = draw_graph_segments gr (emit ?pre cv)"
    using b by (simp add: draw_def background_call_def Let_def draw_graph_outline_def dims_emit
        emit_emit)
  obtain out cs where o: "draw_graph_segments gr (emit ?pre cv) = Some out"
    and s: "snd (state_of out) = emit cs (emit ?pre cv)" and r: "rects cs = []"
    using draw_graph_segments_no_rects [OF assms(1) assms(2)] by blast
  have h: "rects [background_call gr, Save] = []" "rects [Restore] = []"
    by (simp_all add: rects_def background_call_def Let_def)
  have "rects (new_calls cv (snd (state_of out))) = rects (?pre @ cs)"
    by (simp add: s emit_emit new_calls_emit del: append.simps append_assoc)
  also have "\<dots> = map (bar_fillRect gr ?w ?h) [0..<?k]"
    by (simp only: rects_append h rects_bars_part rects_outline r append_Nil append_Nil2)
  also have "\<dots> = map (\<lambda>i. FillRect (bar_X gr ?w i)
                 (jsub (jsub ?h (y_offset gr)) (bar_Y gr ?h (entries gr ! i)))
                 (bar_width (options gr)) (bar_Y gr ?h (entries gr ! i))) [0..<?k]"
    by (simp add: bar_fillRect_def Let_def)
  finally have e: "rects (new_calls cv (snd (state_of out))) =
      map (\<lambda>i. FillRect (bar_X gr ?w i)
                 (jsub (jsub ?h (y_offset gr)) (bar_Y gr ?h (entries gr ! i)))
                 (bar_width (options gr)) (bar_Y gr ?h (entries gr ! i))) [0..<?k]" .
  have "\<forall>n. graphSegments_X (options gr) = Fin (real n) \<longrightarrow>
           length (rects (new_calls cv (snd (state_of out)))) = min n (length (entries gr))"
    unfolding e by auto
  with d o e show ?thesis by auto
qed


lemma five_slots_options:
  "graphSegments_X (options (chart_of (Some (no_options\<lparr>p_graphSegments_X := Some (Fin 5)\<rparr>)) es)) = Fin 5"
  "graphSegments_Y (options (chart_of (Some (no_options\<lparr>p_graphSegments_X := Some (Fin 5)\<rparr>)) es)) = Fin 10"
  "graphValuePrecision (options (chart_of (Some (no_options\<lparr>p_graphSegments_X := Some (Fin 5)\<rparr>)) es)) = Fin 2"
  by (simp_all add: options_chart_of resolve_def field_def dflt_def no_options_def)

theorem C4_bars_painted_witness:
  "graphSegments_X (options (chart_of (Some (no_options\<lparr>p_graphSegments_X := Some (Fin 5)\<rparr>))
       (replicate 8 (bar (Fin 1) None Null)))) \<noteq> PInf
   \<and> graphSegments_Y (options (chart_of (Some (no_options\<lparr>p_graphSegments_X := Some (Fin 5)\<rparr>))
       (replicate 8 (bar (Fin 1) None Null)))) \<noteq> PInf
   \<and> precision_ok (graphValuePrecision (options
       (chart_of (Some (no_options\<lparr>p_graphSegments_X := Some (Fin 5)\<rparr>))
          (replicate 8 (bar (Fin 1) None Null)))))
   \<and> graphSegments_X (options (chart_of (Some (no_options\<lparr>p_graphSegments_X := Some (Fin 5)\<rparr>))
       (replicate 8 (bar (Fin 1) None Null)))) = Fin (real 5)
   \<and> (\<exists>out. draw (chart_of (Some (no_options\<lparr>p_graphSegments_X := Some (Fin 5)\<rparr>))
            (replicate 8 (bar (Fin 1) None Null)))
            (surface_of (Some (no_options\<lparr>p_graphSegments_X := Some (Fin 5)\<rparr>))) = Some out
        \<and> length (rects (new_calls (surface_of (Some (no_options\<lparr>p_graphSegments_X := Some (Fin 5)\<rparr>)))
             (snd (state_of out)))) = 5)"
proof -
  let ?G = "chart_of (Some (no_options\<lparr>p_graphSegments_X := Some (Fin 5)\<rparr>))
       (replicate 8 (bar (Fin 1) None Null))"
  let ?S = "surface_of (Some (no_options\<lparr>p_graphSegments_X := Some (Fin 5)\<rparr>))"
  have h1: "graphSegments_X (options ?G) \<noteq> PInf" by (simp add: five_slots_options)
  have h2: "graphSegments_Y (options ?G) \<noteq> PInf" by (simp add: five_slots_options)
  have p: "precision_ok (graphValuePrecision (options ?G))"
    by (simp add: five_slots_options precision_two)
  then have h3: "\<forall>i<min (iters (graphSegments_X (options ?G))) (length (entries ?G)).
           jmod (val (entries ?G ! i)) (Fin 1) = Fin 0
           \<or> precision_ok (graphValuePrecision (options ?G))"
    by blast
  have n: "graphSegments_X (options ?G) = Fin (real 5)" by (simp add: five_slots_options)
  have l: "min 5 (length (entries ?G)) = 5" by (simp add: entries_chart_of)
  obtain out where d: "draw ?G ?S = Some out"
    and c: "\<forall>n. graphSegments_X (options ?G) = Fin (real n) \<longrightarrow>
           length (rects (new_calls ?S (snd (state_of out)))) = min n (length (entries ?G))"
    using C4_bars_painted [OF h1 h2 h3, of ?S] by blast
  have "length (rects (new_calls ?S (snd (state_of out)))) = 5"
    using c [rule_format, OF n] l by simp
  with h1 h2 p n d show ?thesis by blast
qed

theorem C4_fewer_bars_counterexample:
  "graphSegments_X (options (chart_of (Some wide_config)
       [bar (Fin 1) None Undefined, bar (Fin (5 / 2)) None Undefined, bar (Fin 3) None Undefined])) = Fin 10
   \<and> length (entries (chart_of (Some wide_config)
       [bar (Fin 1) None Undefined, bar (Fin (5 / 2)) None Undefined, bar (Fin 3) None Undefined])) = 3
   \<and> map_option length (rects_after (draw
        (chart_of (Some wide_config)
           [bar (Fin 1) None Undefined, bar (Fin (5 / 2)) None Undefined, bar (Fin 3) None Undefined])
        (surface_of (Some wide_config)))) = Some 2"
proof -
  let ?G = "chart_of (Some wide_config)
       [bar (Fin 1) None Undefined, bar (Fin (5 / 2)) None Undefined, bar (Fin 3) None Undefined]"
  let ?S = "surface_of (Some wide_config)"
  let ?w = "WIDTH ?S" and ?h = "HEIGHT ?S"
  let ?T = "emit [Save] (emit [background_call ?G] ?S)"
  have x: "graphSegments_X (options ?G) \<noteq> PInf" by (simp add: wide_options)
  have i0: "jmod (Fin 1) (Fin 1) = Fin 0" by (simp add: trunc_def)
  have b0: "bar_body ?G w h 0 cv = Next (emit (bar_calls ?G w h 0) cv)" for w h cv
    by (rule bar_body_next) (simp_all add: entries_chart_of bar_fields i0 del: jmod.simps)
  have b1: "bar_body ?G w h (Suc 0) cv = Raise RangeError (emit (bar_rect ?G w h (Suc 0)) cv)" for w h cv
    by (rule bar_body_raises)
       (simp_all add: entries_chart_of bar_fields wide_options bar_val_refused)
  have u: "[0..<iters (graphSegments_X (options ?G))] = 0 # Suc 0 # [2..<10]"
    by (simp add: wide_options upt_conv_Cons)
  have "draw_bars ?G (emit [background_call ?G] ?S) =
      Some (Throws RangeError (emit (bar_rect ?G ?w ?h (Suc 0)) (emit (bar_calls ?G ?w ?h 0) ?T)))"
    by (simp add: draw_bars_def for_loop_run [OF x] u b0 b1 dims_emit)
  then have d: "draw ?G ?S =
      Some (Throws RangeError (?G, emit (bar_rect ?G ?w ?h (Suc 0)) (emit (bar_calls ?G ?w ?h 0) ?T)))"
    by (rule draw_bars_raises)
  have c: "calls (emit (bar_rect ?G ?w ?h (Suc 0)) (emit (bar_calls ?G ?w ?h 0) ?T)) =
      [background_call ?G, Save] @ bar_calls ?G ?w ?h 0 @ bar_rect ?G ?w ?h (Suc 0)"
    by (simp add: calls_emit wide_options)
  have h: "rects [background_call ?G, Save] = []"
    by (simp add: rects_def background_call_def Let_def)
  have a1: "graphSegments_X (options ?G) = Fin 10" by (simp add: wide_options)
  have a2: "length (entries ?G) = 3" by (simp add: entries_chart_of)
  have a3: "map_option length (rects_after (draw ?G ?S)) = Some 2"
    unfolding d rects_after_def
    by (simp add: c rects_append h rects_bar_calls rects_bar_rect del: append.simps)
  from a1 a2 a3 show ?thesis by (intro conjI)
qed

section \<open>The labels of the x ticks\<close>

lemma parseFloat_d: "parseFloat ''d'' = NaN"
  by (simp add: parseFloat_def white_space_def parseUnsigned_def isPrefix_def isDigit_def)

lemma upt_5: "[0..<5] = [0, 1, 2, 3, 4]"
  by (simp add: upt_conv_Cons)

lemma five_slots_draw:
  "run [Draw] (chart_of (Some five_slots_config) es, surface_of (Some five_slots_config)) =
     Some (Returns (derive_yMax (chart_of (Some five_slots_config) es),
       emit (frame (chart_of (Some five_slots_config) es)
               (WIDTH (surface_of (Some five_slots_config)))
               (HEIGHT (surface_of (Some five_slots_config))))
         (surface_of (Some five_slots_config))))"
proof -
  let ?G = "chart_of (Some five_slots_config) es"
  have g: "graphSegments_X (options ?G) \<noteq> PInf" "graphSegments_Y (options ?G) \<noteq> PInf"
    "precision_ok (graphValuePrecision (options ?G))"
    by (simp_all add: five_slots precision_two)
  show ?thesis by (simp only: run_draw [OF g] run.simps(1))
qed

lemma five_slots_texts:
  assumes "\<forall>e \<in> set es. valueLabel e = Null"
  shows "texts_after (run [Draw]
       (chart_of (Some five_slots_config) es, surface_of (Some five_slots_config))) =
     Some (texts (xticks_part (derive_yMax (chart_of (Some five_slots_config) es))
       (WIDTH (surface_of (Some five_slots_config))) (HEIGHT (surface_of (Some five_slots_config)))))"
proof -
  let ?G = "chart_of (Some five_slots_config) es"
  let ?S = "surface_of (Some five_slots_config)"
  have "texts (bar_calls ?G (WIDTH ?S) (HEIGHT ?S) i) = []"
    if "i < length es" for i
    using that assms by (simp add: texts_bar_calls entries_chart_of)
  then have "concat (map (\<lambda>i. texts (bar_calls ?G (WIDTH ?S) (HEIGHT ?S) i))
      [0..<min (iters (graphSegments_X (options ?G))) (length (entries ?G))]) = []"
    by (simp add: entries_chart_of)
  then have b: "texts (bars_part ?G (WIDTH ?S) (HEIGHT ?S)) = []"
    unfolding bars_part_def texts_concat .
  have o: "texts (outline_calls ?G (WIDTH ?S) (HEIGHT ?S)) = []"
    by (simp add: texts_outline five_slots)
  have y: "texts (yticks_part (derive_yMax ?G) (HEIGHT ?S)) = []"
    by (simp add: yticks_part_def options_derive five_slots jsub_def texts_def)
  have t: "texts (frame ?G (WIDTH ?S) (HEIGHT ?S)) =
      texts (xticks_part (derive_yMax ?G) (WIDTH ?S) (HEIGHT ?S))"
    by (simp only: texts_frame b o y append_Nil)
  have n: "texts [] = []" by (simp add: texts_def)
  show ?thesis
    unfolding five_slots_draw texts_after_def
    by (simp add: calls_emit five_slots(6) texts_append t n)
qed

lemma five_slots_xticks:
  "xticks_part (derive_yMax (chart_of (Some five_slots_config) es)) w h =
     concat (map (xtick_calls (derive_yMax (chart_of (Some five_slots_config) es)) w h) [0, 1, 2, 3])"
proof -
  have "iters (jsub (graphSegments_X (options (derive_yMax (chart_of (Some five_slots_config) es))))
      (Fin 1)) = 4"
    by (simp add: options_derive five_slots jsub_def)
  then show ?thesis unfolding xticks_part_def by (simp only: upt_4)
qed

text \<open>
  C5. With five slots, no captions of the axes and no y ticks, the only texts that
  \<open>draw\<close> paints are the labels of the x ticks. Three entries labelled a, b, c give the
  four texts a, b, c, 3: slot 4 has no label. Five entries labelled a to e give five
  rectangles and the four texts a, b, c, d: the bar of the last slot has no label.
\<close>

theorem C5_last_slot_unlabelled:
  "texts_after (run [Draw]
     (chart_of (Some five_slots_config)
        [bar (Fin 1) (Some ''a'') Null, bar (Fin 2) (Some ''b'') Null, bar (Fin 3) (Some ''c'') Null],
      surface_of (Some five_slots_config))) = Some [''a'', ''b'', ''c'', ''3'']
   \<and> texts_after (run [Draw]
     (chart_of (Some five_slots_config)
        [bar (Fin 1) (Some ''a'') Null, bar (Fin 2) (Some ''b'') Null, bar (Fin 3) (Some ''c'') Null,
         bar (Fin 4) (Some ''d'') Null, bar (Fin 5) (Some ''e'') Null],
      surface_of (Some five_slots_config))) = Some [''a'', ''b'', ''c'', ''d'']
   \<and> map_option length (rects_after (run [Draw]
     (chart_of (Some five_slots_config)
        [bar (Fin 1) (Some ''a'') Null, bar (Fin 2) (Some ''b'') Null, bar (Fin 3) (Some ''c'') Null,
         bar (Fin 4) (Some ''d'') Null, bar (Fin 5) (Some ''e'') Null],
      surface_of (Some five_slots_config)))) = Some 5"
proof -
  let ?e3 = "[bar (Fin 1) (Some ''a'') Null, bar (Fin 2) (Some ''b'') Null, bar (Fin 3) (Some ''c'') Null]"
  let ?e5 = "[bar (Fin 1) (Some ''a'') Null, bar (Fin 2) (Some ''b'') Null, bar (Fin 3) (Some ''c'') Null,
         bar (Fin 4) (Some ''d'') Null, bar (Fin 5) (Some ''e'') Null]"
  let ?S = "surface_of (Some five_slots_config)"
  have n3: "\<forall>e \<in> set ?e3. valueLabel e = Null" by (simp add: bar_fields)
  have n5: "\<forall>e \<in> set ?e5. valueLabel e = Null" by (simp add: bar_fields)
  have t3: "texts (xticks_part (derive_yMax (chart_of (Some five_slots_config) ?e3))
      (WIDTH ?S) (HEIGHT ?S)) = [''a'', ''b'', ''c'', ''3'']"
    unfolding five_slots_xticks texts_concat
    by (simp add: texts_xtick_calls options_derive entries_chart_of entry_at_def label_shown_def
        bar_fields xtick_str_verbatim parseFloat_letters xtick_str_no_entry numToString_3
        del: numToString.simps)
  have t5: "texts (xticks_part (derive_yMax (chart_of (Some five_slots_config) ?e5))
      (WIDTH ?S) (HEIGHT ?S)) = [''a'', ''b'', ''c'', ''d'']"
    unfolding five_slots_xticks texts_concat
    by (simp add: texts_xtick_calls options_derive entries_chart_of entry_at_def label_shown_def
        bar_fields xtick_str_verbatim parseFloat_letters parseFloat_d)
  have a: "texts_after (run [Draw] (chart_of (Some five_slots_config) ?e3, ?S)) =
      Some [''a'', ''b'', ''c'', ''3'']"
    by (simp only: five_slots_texts [OF n3] t3)
  have b: "texts_after (run [Draw] (chart_of (Some five_slots_config) ?e5, ?S)) =
      Some [''a'', ''b'', ''c'', ''d'']"
    by (simp only: five_slots_texts [OF n5] t5)
  have k: "min (iters (graphSegments_X (options (chart_of (Some five_slots_config) ?e5))))
      (length (entries (chart_of (Some five_slots_config) ?e5))) = 5"
    by (simp add: five_slots entries_chart_of)
  have e: "rects [] = []" by (simp add: rects_def)
  have c: "map_option length (rects_after (run [Draw] (chart_of (Some five_slots_config) ?e5, ?S))) =
      Some 5"
    unfolding five_slots_draw rects_after_def
    by (simp add: calls_emit five_slots(6) rects_append rects_frame k e del: upt.simps)
  from a b c show ?thesis by (intro conjI)
qed

section \<open>Integers and fractions as text\<close>

lemma bits_upper: "n < 2 ^ bits n"
proof (induction n rule: bits.induct)
  case (1 n)
  show ?case
  proof (cases "n = 0")
    case True
    then show ?thesis by simp
  next
    case False
    then have "n div 2 < 2 ^ bits (n div 2)" using 1 by simp
    then have "n < 2 * 2 ^ bits (n div 2)" by linarith
    then show ?thesis using False by (subst bits.simps) simp
  qed
qed












































end
